theory Spec2Isabelle
  imports Main
begin

section \<open>Strings and POSIX paths\<close>

text \<open>
  Python \<open>str\<close> values are modelled as \<open>string\<close> (a list of characters).
  The three functions of \<open>os.path\<close> that the uploader calls are embedded from
  the POSIX flavour of the Python library (\<open>posixpath\<close>): the separator is
  \<open>/\<close>, the extension separator is \<open>.\<close>, and there is no alternative
  separator.
\<close>

definition startswith :: "string \<Rightarrow> string \<Rightarrow> bool" where
  \<comment> \<open>\<open>s.startswith(pre)\<close>\<close>
  "startswith pre s = (take (length pre) s = pre)"

definition endswith :: "string \<Rightarrow> string \<Rightarrow> bool" where
  \<comment> \<open>\<open>s.endswith(suf)\<close>\<close>
  "endswith suf s = startswith (rev suf) (rev s)"

fun contains :: "string \<Rightarrow> string \<Rightarrow> bool" where
  \<comment> \<open>\<open>sub in s\<close>\<close>
  "contains sub [] = (sub = [])"
| "contains sub (c # cs) = (startswith sub (c # cs) \<or> contains sub cs)"

definition sep :: char where
  "sep = CHR ''/''"

definition extsep :: char where
  "extsep = CHR ''.''"

definition rstrip_sep :: "string \<Rightarrow> string" where
  \<comment> \<open>\<open>head.rstrip(sep)\<close>\<close>
  "rstrip_sep s = rev (dropWhile (\<lambda>c. c = sep) (rev s))"

definition os_path_split :: "string \<Rightarrow> string \<times> string" where
  \<comment> \<open>\<open>i = p.rfind(sep) + 1; head, tail = p[:i], p[i:]\<close>; trailing separators are
      stripped from a head that is not made of separators only.\<close>
  "os_path_split p =
     (let tail = rev (takeWhile (\<lambda>c. c \<noteq> sep) (rev p));
          head = rev (dropWhile (\<lambda>c. c \<noteq> sep) (rev p))
      in (if head \<noteq> [] \<and> \<not> list_all (\<lambda>c. c = sep) head then rstrip_sep head else head,
          tail))"

definition os_path_join :: "string \<Rightarrow> string \<Rightarrow> string" where
  \<comment> \<open>\<open>os.path.join(a, b)\<close> with a single second component.\<close>
  "os_path_join a b =
     (if startswith [sep] b then b
      else if a = [] \<or> endswith [sep] a then a @ b
      else a @ [sep] @ b)"

definition os_path_splitext :: "string \<Rightarrow> string \<times> string" where
  \<comment> \<open>The extension starts at the last dot of the last path component, unless only
      dots come before it in that component.\<close>
  "os_path_splitext p =
     (let base = rev (takeWhile (\<lambda>c. c \<noteq> sep) (rev p));
          dir = rev (dropWhile (\<lambda>c. c \<noteq> sep) (rev p))
      in if extsep \<in> set base then
           (let ext = extsep # rev (takeWhile (\<lambda>c. c \<noteq> extsep) (rev base));
                stem = rev (tl (dropWhile (\<lambda>c. c \<noteq> extsep) (rev base)))
            in if list_ex (\<lambda>c. c \<noteq> extsep) stem then (dir @ stem, ext) else (p, []))
         else (p, []))"

definition os_path_basename :: "string \<Rightarrow> string" where
  "os_path_basename p = rev (takeWhile (\<lambda>c. c \<noteq> sep) (rev p))"

section \<open>The page-marker pattern\<close>

text \<open>
  \<open>re.search('_page\d{1,6}(?!_page)', filename)\<close>: the leftmost position at which
  the pattern matches, and there the first alternative of a backtracking matcher. The
  quantifier \<open>{1,6}\<close> is greedy: it takes as many digits as it can, at most six, and
  gives them back one at a time while the negative lookahead fails. Characters are bytes
  here, so \<open>\d\<close> is an ASCII digit.
\<close>

definition is_digit :: "char \<Rightarrow> bool" where
  "is_digit c = (c \<in> set ''0123456789'')"

fun page_digits :: "nat \<Rightarrow> string \<Rightarrow> string option" where
  \<comment> \<open>\<open>page_digits k s\<close>: try \<open>k\<close> digits, then \<open>k - 1\<close>, down to one; a try succeeds when
      what follows the digits does not start with \<open>_page\<close>.\<close>
  "page_digits 0 s = None"
| "page_digits (Suc k) s =
     (if \<not> startswith ''_page'' (drop (Suc k) s) then Some (take (Suc k) s)
      else page_digits k s)"

definition page_match :: "string \<Rightarrow> string option" where
  \<comment> \<open>The pattern anchored at the start of \<open>s\<close>; the result is \<open>group(0)\<close>.\<close>
  "page_match s =
     (if startswith ''_page'' s then
        (let rest = drop 5 s;
             n = length (takeWhile is_digit (take 6 rest))
         in map_option (\<lambda>ds. ''_page'' @ ds) (page_digits n rest))
      else None)"

fun page_search :: "string \<Rightarrow> string option" where
  "page_search [] = page_match []"
| "page_search (c # cs) =
     (case page_match (c # cs) of Some m \<Rightarrow> Some m | None \<Rightarrow> page_search cs)"

section \<open>Namer\<close>

text \<open>
  The instance takes its timestamp once, in \<open>__init__\<close>
  (\<open>self.timestamp = datetime.datetime.now()\<close>), and only formats it afterwards. The
  two formatted fields are what the naming uses, so the timestamp is the pair of
  \<open>strftime("%Y%m%d")\<close> and \<open>strftime("%H%M%S")\<close>.
\<close>

record datetime =
  Ymd :: string
  HMS :: string

definition get_new_filename :: "datetime \<Rightarrow> string \<Rightarrow> string \<Rightarrow> string" where
  "get_new_filename ts hawb filename =
     (if filename \<noteq> [] then
        ''h'' @ hawb @ ''-'' @ Ymd ts @ ''-'' @ HMS ts
          @ (case page_search filename of Some m \<Rightarrow> m | None \<Rightarrow> [])
          @ (if snd (os_path_splitext filename) \<noteq> [] then snd (os_path_splitext filename)
             else [])
      else [])"

section \<open>Exceptions, the file system and the observable effects\<close>

text \<open>
  Every \<open>raise\<close> of the source and of the libraries it calls is a value of \<open>exn\<close>. The
  exceptions of \<open>requests\<close> derive from \<open>IOError\<close>, which is \<open>OSError\<close> in Python 3;
  \<open>Exception\<close> stands for any exception that is not an \<open>OSError\<close>.
\<close>

datatype errno = ENOENT | ENOTDIR | EISDIR | ENOTEMPTY | EINVAL | EIO

datatype exn =
    ConnectionError
  | Timeout
  | HTTPError nat string
  | RequestException
  | OSError errno
  | Exception

fun is_OSError :: "exn \<Rightarrow> bool" where
  "is_OSError Exception = False"
| "is_OSError _ = True"

text \<open>
  The file system is a table from paths to entries, by full path as the program writes
  it (no symbolic links, no permissions, no normalisation of paths). The contents of a
  file are of an arbitrary type \<open>'c\<close>: the image codec and the size of a file are
  parameters of the model (\<open>env\<close> below).
\<close>

datatype 'c node = File 'c | Dir

type_synonym 'c filesystem = "(string \<times> 'c node) list"

definition under :: "string \<Rightarrow> string \<Rightarrow> bool" where
  \<comment> \<open>\<open>p\<close> lies inside the directory \<open>d\<close>\<close>
  "under d p = startswith (d @ [sep]) p"

definition remove_entry :: "string \<Rightarrow> 'c filesystem \<Rightarrow> 'c filesystem" where
  "remove_entry p fs = filter (\<lambda>(q, n). q \<noteq> p) fs"

definition remove_tree :: "string \<Rightarrow> 'c filesystem \<Rightarrow> 'c filesystem" where
  "remove_tree d fs = filter (\<lambda>(q, n). q \<noteq> d \<and> \<not> under d q) fs"

definition move_tree :: "string \<Rightarrow> string \<Rightarrow> 'c filesystem \<Rightarrow> 'c filesystem" where
  "move_tree src dst fs =
     map (\<lambda>(q, n). (if q = src then dst
                      else if under src q then dst @ drop (length src) q
                      else q, n)) fs"

definition os_rename :: "'c filesystem \<Rightarrow> string \<Rightarrow> string \<Rightarrow> exn + 'c filesystem" where
  \<comment> \<open>\<open>os.rename(src, dst)\<close> on POSIX: an existing file at \<open>dst\<close> is replaced silently by
      a file, an empty directory by a directory; a directory does not replace a file, nor
      a file a directory, and a directory that is not empty is not replaced.\<close>
  "os_rename fs src dst =
     (case map_of fs src of
        None \<Rightarrow> Inl (OSError ENOENT)
      | Some (File c) \<Rightarrow>
          (case map_of fs dst of
             Some Dir \<Rightarrow> Inl (OSError EISDIR)
           | _ \<Rightarrow> if src = dst then Inr fs
                  else Inr ((dst, File c) # remove_entry dst (remove_entry src fs)))
      | Some Dir \<Rightarrow>
          (case map_of fs dst of
             Some (File c) \<Rightarrow> Inl (OSError ENOTDIR)
           | Some Dir \<Rightarrow>
               if src = dst then Inr fs
               else if list_ex (\<lambda>(q, n). under dst q) fs then Inl (OSError ENOTEMPTY)
               else if under src dst then Inl (OSError EINVAL)
               else Inr (move_tree src dst (remove_entry dst fs))
           | None \<Rightarrow>
               if under src dst then Inl (OSError EINVAL)
               else Inr (move_tree src dst fs)))"

definition rmtree :: "'c filesystem \<Rightarrow> string \<Rightarrow> exn + 'c filesystem" where
  \<comment> \<open>\<open>shutil.rmtree(path)\<close>: the path must be a directory.\<close>
  "rmtree fs p =
     (case map_of fs p of
        None \<Rightarrow> Inl (OSError ENOENT)
      | Some (File c) \<Rightarrow> Inl (OSError ENOTDIR)
      | Some Dir \<Rightarrow> Inr (remove_tree p fs))"

text \<open>
  Each format string of the source is one constructor of \<open>message\<close>, with the values
  that fill it.
\<close>

datatype message =
    CouldNotConnect
    \<comment> \<open>"Could not connect to the Image Database"\<close>
  | TimedOut
    \<comment> \<open>"Timed out trying to connect to the Image Database"\<close>
  | ServerResponseError nat
    \<comment> \<open>"Server Response: Error {}"\<close>
  | RequestPreparationError
    \<comment> \<open>"An error occurred while preparing the request for the Image Database"\<close>
  | OSErrorDuringConversion
    \<comment> \<open>"OS Error during conversion"\<close>
  | FilesFailedToUpload "string list"
    \<comment> \<open>"The following files failed to upload: {}"\<close>
  | CouldNotUploadFile string
    \<comment> \<open>"Could not upload file {} to MyFSP"\<close>
  | SuccessfullyUploadedBatch string
    \<comment> \<open>"Successfully uploaded {}"\<close>
  | SuccessfullyUploaded string
    \<comment> \<open>"Successfully uploaded: {}"\<close>
  | UploadFailedCouldNotUpload string string
    \<comment> \<open>"{} upload failed, could not upload {}"\<close>
  | UploadFailedCouldNotConvert string string
    \<comment> \<open>"{} upload failed, could not convert {}"\<close>
  | UploadFailedCouldNotRename string string
    \<comment> \<open>"{} upload failed, could not rename {}"\<close>
  | NoImagesAfterRenaming string
    \<comment> \<open>"Upload of {} failed. There were no more images to process after the renaming step. ..."\<close>
  | NoImagesAfterConversion string
    \<comment> \<open>"Upload of {} failed. There were no more images to process after the conversion step. ..."\<close>
  | CouldNotRename string string
    \<comment> \<open>"Could not rename {} to {}"\<close>

text \<open>
  The effects of a run, in the order they happen: what is shown or printed, and the calls
  that leave the process (file system, image codec, HTTP, thread start). The diagnostic
  prints under \<open>verbose\<close> are not effects of the model.
\<close>

datatype event =
    ShowError message
    \<comment> \<open>\<open>QErrorMessage(self).showMessage(message)\<close>\<close>
  | PrintErr message
    \<comment> \<open>\<open>print(message, file=sys.stderr)\<close>\<close>
  | PrintExn exn
    \<comment> \<open>\<open>print(repr(exception), file=sys.stderr)\<close>\<close>
  | ShowSuccess message
    \<comment> \<open>\<open>QMessageBox\<close> with the message\<close>
  | PrintOut message
    \<comment> \<open>\<open>print(message, file=sys.stdout)\<close>\<close>
  | Renames string string
    \<comment> \<open>\<open>os.renames(old, new)\<close>\<close>
  | Rmtree string
    \<comment> \<open>\<open>shutil.rmtree(path)\<close>\<close>
  | SaveTiff string string
    \<comment> \<open>\<open>Image.open(src).save(dst, format="TIFF", quality=85)\<close>\<close>
  | Compress string
    \<comment> \<open>entry of \<open>compress_image\<close>\<close>
  | Resave string
    \<comment> \<open>one pass of the loop of \<open>compress_image\<close>: open, thumbnail, save\<close>
  | Send string
    \<comment> \<open>\<open>requests.Session().send\<close> of the request for this image path\<close>
  | ThreadStart
    \<comment> \<open>\<open>self.runner_thread.start()\<close>\<close>
  | EnableControls
    \<comment> \<open>\<open>self.enable_controls()\<close>\<close>

record ('c, 's) world =
  disk :: "'c filesystem"
  net :: 's
  trace :: "event list"

definition emit :: "event list \<Rightarrow> ('c, 's) world \<Rightarrow> ('c, 's) world" where
  "emit es w = w\<lparr>trace := trace w @ es\<rparr>"

section \<open>The uploader instance\<close>

record uploader =
  silent :: bool
  verbose :: bool
  timestamp :: datetime
  hawb_number :: string
  original_image_path :: string
  bg_results :: "(int \<times> string) list"
  num_bg_tasks :: int
  tasks_queue :: "(string \<times> string) list"
  runner_thread_started :: bool

definition init :: "datetime \<Rightarrow> string \<Rightarrow> string \<Rightarrow> bool \<Rightarrow> bool \<Rightarrow> uploader" where
  \<comment> \<open>\<open>__init__\<close>; the first argument is the value of \<open>datetime.datetime.now()\<close>.\<close>
  "init now hawb path sil verb =
     \<lparr>silent = sil, verbose = verb, timestamp = now, hawb_number = hawb,
      original_image_path = path, bg_results = [], num_bg_tasks = - 1, tasks_queue = [],
      runner_thread_started = False\<rparr>"

definition error :: "message \<Rightarrow> exn option \<Rightarrow> bool \<Rightarrow> ('c, 's) world \<Rightarrow> ('c, 's) world" where
  "error m exception sil w =
     emit ((if \<not> sil then [ShowError m] else [PrintErr m])
           @ (case exception of None \<Rightarrow> [] | Some e \<Rightarrow> [PrintExn e])) w"

definition success :: "uploader \<Rightarrow> message \<Rightarrow> ('c, 's) world \<Rightarrow> ('c, 's) world" where
  "success u m w = emit (if \<not> silent u then [ShowSuccess m] else [PrintOut m]) w"

section \<open>PathMover\<close>

text \<open>
  \<open>os.renames(old, new)\<close> creates the missing directories above \<open>new\<close>, renames, and
  prunes the directories above \<open>old\<close> that have become empty. The table keeps entries by
  full path and asks for no entry above a path (a directory that \<open>os.renames\<close> makes
  above \<open>new\<close> is no entry of the table), and \<open>rename_path\<close> renames inside the directory
  of the source, which is not empty afterwards; so the call is the rename.
\<close>

definition os_renames :: "string \<Rightarrow> string \<Rightarrow> ('c, 's) world \<Rightarrow> (exn + unit) \<times> ('c, 's) world" where
  "os_renames old new w =
     (case os_rename (disk w) old new of
        Inl e \<Rightarrow> (Inl e, emit [Renames old new] w)
      | Inr fs' \<Rightarrow> (Inr (), emit [Renames old new] (w\<lparr>disk := fs'\<rparr>)))"

definition shutil_rmtree :: "string \<Rightarrow> ('c, 's) world \<Rightarrow> (exn + unit) \<times> ('c, 's) world" where
  "shutil_rmtree p w =
     (case rmtree (disk w) p of
        Inl e \<Rightarrow> (Inl e, emit [Rmtree p] w)
      | Inr fs' \<Rightarrow> (Inr (), emit [Rmtree p] (w\<lparr>disk := fs'\<rparr>)))"

datatype path_or_false = PFalse | Path string

fun truthy :: "path_or_false \<Rightarrow> bool" where
  \<comment> \<open>\<open>if f\<close>: \<open>False\<close> and the empty string are falsy\<close>
  "truthy PFalse = False"
| "truthy (Path p) = (p \<noteq> [])"

definition rename :: "string \<Rightarrow> string \<Rightarrow> ('c, 's) world \<Rightarrow> (exn + string) \<times> ('c, 's) world" where
  \<comment> \<open>the inner function \<open>rename()\<close> of \<open>rename_path\<close>\<close>
  "rename path renamed_path w =
     (case os_renames path renamed_path w of
        (Inr _, w1) \<Rightarrow> (Inr renamed_path, w1)
      | (Inl e, w1) \<Rightarrow>
          if is_OSError e then
            (case shutil_rmtree renamed_path w1 of
               (Inl e2, w2) \<Rightarrow> (Inl e2, w2)
             | (Inr _, w2) \<Rightarrow>
                 (case os_renames path renamed_path w2 of
                    (Inl e3, w3) \<Rightarrow> (Inl e3, w3)
                  | (Inr _, w3) \<Rightarrow> (Inr renamed_path, w3)))
          else (Inl e, w1))"

definition renamed_path_of :: "uploader \<Rightarrow> string \<Rightarrow> string" where
  \<comment> \<open>the first three statements of \<open>rename_path\<close>\<close>
  "renamed_path_of u path =
     (let (directory, filename) = os_path_split path;
          new_filename = get_new_filename (timestamp u) (hawb_number u) filename
      in os_path_join directory new_filename)"

definition rename_path :: "uploader \<Rightarrow> string \<Rightarrow> ('c, 's) world \<Rightarrow> path_or_false \<times> ('c, 's) world" where
  "rename_path u path w =
     (let renamed_path = renamed_path_of u path
      in case rename path renamed_path w of
           (Inr p, w') \<Rightarrow> (Path p, w')
         | (Inl err, w') \<Rightarrow>
             (PFalse, error (CouldNotRename path renamed_path) (Some err) True w'))"

section \<open>The environment: image codec and HTTP transport\<close>

text \<open>
  What PIL and \<open>requests\<close> do is a parameter of the model: how large an entry is on
  disk, the size in pixels of an image that opens, what a thumbnail pass and a TIFF save
  write, and what the server answers to the request for a file (with a state \<open>'s\<close> of
  its own, so that a server may answer differently the second time). The last field is
  what the instance and the world have become when \<open>wait_on_uploader_thread\<close> returns:
  the worker thread runs beside the caller, and which of its signals have been delivered
  to the instance by then is not decided by the code of the caller.
\<close>

record response =
  status_code :: nat
  resp_text :: string

record ('c, 's) env =
  st_size :: "'c node \<Rightarrow> nat"
  image_size :: "'c \<Rightarrow> exn + nat \<times> nat"
  thumbnail_save :: "nat \<times> nat \<Rightarrow> 'c \<Rightarrow> exn + 'c"
  tiff_save :: "'c \<Rightarrow> exn + 'c"
  session_send :: "string \<Rightarrow> 'c \<Rightarrow> 's \<Rightarrow> (exn + response) \<times> 's"
  join_worker :: "uploader \<Rightarrow> ('c, 's) world \<Rightarrow> uploader \<times> ('c, 's) world"

definition write_file :: "string \<Rightarrow> 'c \<Rightarrow> 'c filesystem \<Rightarrow> 'c filesystem" where
  "write_file p c fs =
     (if map_of fs p = None then (p, File c) # fs
      else map (\<lambda>(q, n). if q = p then (q, File c) else (q, n)) fs)"

definition os_stat_size :: "('c, 's) env \<Rightarrow> string \<Rightarrow> ('c, 's) world \<Rightarrow> exn + nat" where
  \<comment> \<open>\<open>os.stat(path).st_size\<close>\<close>
  "os_stat_size E p w =
     (case map_of (disk w) p of None \<Rightarrow> Inl (OSError ENOENT) | Some n \<Rightarrow> Inr (st_size E n))"

section \<open>Uploader: post\<close>

definition ok :: nat where
  \<comment> \<open>\<open>requests.codes.ok\<close>\<close>
  "ok = 200"

definition post :: "('c, 's) env \<Rightarrow> string \<Rightarrow> ('c, 's) world \<Rightarrow> (exn + bool) \<times> ('c, 's) world" where
  \<comment> \<open>\<open>open(image_path, 'rb')\<close>, the prepared request sent, then the status: \<open>ok\<close> is
      \<open>True\<close>; \<open>raise_for_status()\<close> raises for 400 to 599; anything else is \<open>False\<close>.\<close>
  "post E image_path w =
     (case map_of (disk w) image_path of
        None \<Rightarrow> (Inl (OSError ENOENT), w)
      | Some Dir \<Rightarrow> (Inl (OSError EISDIR), w)
      | Some (File c) \<Rightarrow>
          (case session_send E (os_path_basename image_path) c (net w) of
             (Inl e, n') \<Rightarrow> (Inl e, emit [Send image_path] (w\<lparr>net := n'\<rparr>))
           | (Inr r, n') \<Rightarrow>
               (if status_code r = ok then (Inr True, emit [Send image_path] (w\<lparr>net := n'\<rparr>))
                else if 400 \<le> status_code r \<and> status_code r < 600
                  then (Inl (HTTPError (status_code r) (resp_text r)),
                        emit [Send image_path] (w\<lparr>net := n'\<rparr>))
                else (Inr False, emit [Send image_path] (w\<lparr>net := n'\<rparr>)))))"

section \<open>SizeBounder: compress\_image\<close>

definition FILE_SIZE_LIMIT :: nat where
  "FILE_SIZE_LIMIT = 1000000"

definition MAX_RESIZE_PASSES :: nat where
  "MAX_RESIZE_PASSES = 50"

definition downsize :: "nat \<times> nat \<Rightarrow> nat \<times> nat" where
  \<comment> \<open>\<open>tuple([int(floor(x * 0.80)) for x in img.size])\<close>; the floating-point product
      floors to \<open>4 * x div 5\<close> for every \<open>x\<close> below \<open>2 ^ 50\<close>.\<close>
  "downsize sz = (4 * fst sz div 5, 4 * snd sz div 5)"


definition resave :: "('c, 's) env \<Rightarrow> string \<Rightarrow> ('c, 's) world \<Rightarrow> (exn + unit) \<times> ('c, 's) world" where
  \<comment> \<open>the \<open>with Image.open(image_path) as img\<close> block of the loop\<close>
  "resave E image_path w =
     (case map_of (disk w) image_path of
        None \<Rightarrow> (Inl (OSError ENOENT), emit [Resave image_path] w)
      | Some Dir \<Rightarrow> (Inl (OSError EISDIR), emit [Resave image_path] w)
      | Some (File c) \<Rightarrow>
          (case image_size E c of
             Inl e \<Rightarrow> (Inl e, emit [Resave image_path] w)
           | Inr sz \<Rightarrow>
               (case thumbnail_save E (downsize sz) c of
                  Inl e \<Rightarrow> (Inl e, emit [Resave image_path] w)
                | Inr c' \<Rightarrow>
                    (Inr (), emit [Resave image_path]
                               (w\<lparr>disk := write_file image_path c' (disk w)\<rparr>)))))"

function compress_loop ::
  "('c, 's) env \<Rightarrow> string \<Rightarrow> nat \<Rightarrow> nat \<Rightarrow> ('c, 's) world \<Rightarrow> (exn + nat \<times> nat) \<times> ('c, 's) world"
where
  \<comment> \<open>the \<open>while\<close> loop; the result is the final \<open>(passes, image_file_size)\<close>\<close>
  "compress_loop E image_path passes image_file_size w =
     (if image_file_size > FILE_SIZE_LIMIT \<and> \<not> passes > MAX_RESIZE_PASSES then
        (case resave E image_path w of
           (Inl e, w1) \<Rightarrow> (Inl e, w1)
         | (Inr _, w1) \<Rightarrow>
             (case os_stat_size E image_path w1 of
                Inl e \<Rightarrow> (Inl e, w1)
              | Inr sz \<Rightarrow> compress_loop E image_path (passes + 1) sz w1))
      else (Inr (passes, image_file_size), w))"
  by pat_completeness auto
termination
  by (relation "measure (\<lambda>(E, p, passes, sz, w). Suc MAX_RESIZE_PASSES - passes)") auto

definition compress_image ::
  "('c, 's) env \<Rightarrow> string \<Rightarrow> ('c, 's) world \<Rightarrow> (exn + unit) \<times> ('c, 's) world"
where
  "compress_image E image_path w =
     (case os_stat_size E image_path (emit [Compress image_path] w) of
        Inl e \<Rightarrow> (Inl e, emit [Compress image_path] w)
      | Inr sz \<Rightarrow>
          (case compress_loop E image_path 0 sz (emit [Compress image_path] w) of
             (Inl e, w1) \<Rightarrow> (Inl e, w1)
           | (Inr _, w1) \<Rightarrow> (Inr (), w1)))"

section \<open>Uploader: upload\_image\<close>

text \<open>
  The retry is a recursive call with no bound of its own: a server that answers the
  size-limit error for ever keeps the function from returning, which is the value
  \<open>None\<close>.
\<close>

definition size_limit_marker :: string where
  "size_limit_marker = ''SizeLimitExceededException:''"

partial_function (option) upload_image ::
  "('c, 's) env \<Rightarrow> string \<Rightarrow> ('c, 's) world \<Rightarrow> ((exn + bool) \<times> ('c, 's) world) option"
where
  "upload_image E image_path w =
     (case post E image_path w of
        (Inr b, w1) \<Rightarrow> Some (Inr b, w1)
      | (Inl ConnectionError, w1) \<Rightarrow>
          Some (Inr False, error CouldNotConnect (Some ConnectionError) True w1)
      | (Inl Timeout, w1) \<Rightarrow>
          Some (Inr False, error TimedOut (Some Timeout) True w1)
      | (Inl (HTTPError code txt), w1) \<Rightarrow>
          (if code = 500 \<and> contains size_limit_marker txt then
             (case compress_image E image_path w1 of
                (Inl e, w2) \<Rightarrow> Some (Inl e, w2)
              | (Inr _, w2) \<Rightarrow> upload_image E image_path w2)
           else Some (Inr False,
                      error (ServerResponseError code) (Some (HTTPError code txt)) True w1))
      | (Inl RequestException, w1) \<Rightarrow>
          Some (Inr False, error RequestPreparationError (Some RequestException) True w1)
      | (Inl (OSError n), w1) \<Rightarrow> Some (Inl (OSError n), w1)
      | (Inl Exception, w1) \<Rightarrow> Some (Inl Exception, w1))"

section \<open>FormatConverter\<close>

definition lower_char :: "char \<Rightarrow> char" where
  "lower_char c =
     (case map_of (zip ''ABCDEFGHIJKLMNOPQRSTUVWXYZ'' ''abcdefghijklmnopqrstuvwxyz'') c of
        Some l \<Rightarrow> l
      | None \<Rightarrow> c)"

definition lower :: "string \<Rightarrow> string" where
  "lower s = map lower_char s"

definition convert_image ::
  "('c, 's) env \<Rightarrow> string \<Rightarrow> ('c, 's) world \<Rightarrow> (exn + path_or_false) \<times> ('c, 's) world"
where
  "convert_image E image_path w =
     (if endswith ''.tif'' (lower image_path) \<or> endswith ''.tiff'' (lower image_path)
      then (Inr (Path image_path), w)
      else
        (let converted_image_path = fst (os_path_splitext image_path) @ ''.tif'';
             w1 = emit [SaveTiff image_path converted_image_path] w;
             saved =
               (case map_of (disk w) image_path of
                  None \<Rightarrow> Inl (OSError ENOENT)
                | Some Dir \<Rightarrow> Inl (OSError EISDIR)
                | Some (File c) \<Rightarrow>
                    (case tiff_save E c of
                       Inl e \<Rightarrow> Inl e
                     | Inr c' \<Rightarrow>
                         (if map_of (disk w) converted_image_path = Some Dir
                          then Inl (OSError EISDIR)
                          else Inr (write_file converted_image_path c' (disk w)))))
         in case saved of
              Inr fs' \<Rightarrow> (Inr (Path converted_image_path), w1\<lparr>disk := fs'\<rparr>)
            | Inl e \<Rightarrow>
                (if is_OSError e
                 then (Inr PFalse, error OSErrorDuringConversion (Some e) True w1)
                 else (Inl e, w1))))"

section \<open>WorkQueue and ResultAggregator\<close>

definition queue_images_for_upload :: "uploader \<Rightarrow> string list \<Rightarrow> int \<times> uploader" where
  "queue_images_for_upload u image_paths =
     (0, u\<lparr>num_bg_tasks := int (length image_paths),
           bg_results := [],
           tasks_queue := tasks_queue u @ map (\<lambda>x. (hawb_number u, x)) image_paths\<rparr>)"

definition examine_bg_results :: "uploader \<Rightarrow> ('c, 's) world \<Rightarrow> int \<times> ('c, 's) world" where
  "examine_bg_results u w =
     (let failures = map snd (filter (\<lambda>x. fst x \<noteq> 0) (bg_results u));
          num = int (length failures);
          w1 = (if num > 0 then error (FilesFailedToUpload failures) None (silent u) w
                else if num < 0
                  then error (CouldNotUploadFile (original_image_path u)) None (silent u) w
                else success u (SuccessfullyUploadedBatch (original_image_path u)) w)
      in (num, if \<not> silent u then emit [EnableControls] w1 else w1))"

definition wait_on_uploader_thread ::
  "('c, 's) env \<Rightarrow> uploader \<Rightarrow> ('c, 's) world \<Rightarrow> uploader \<times> ('c, 's) world"
where
  "wait_on_uploader_thread E u w = join_worker E u w"

definition start_uploader_thread :: "uploader \<Rightarrow> ('c, 's) world \<Rightarrow> uploader \<times> ('c, 's) world" where
  \<comment> \<open>the worker and its uploader are made and connected, then \<open>self.runner_thread.start()\<close>\<close>
  "start_uploader_thread u w = (u\<lparr>runner_thread_started := True\<rparr>, emit [ThreadStart] w)"

section \<open>Pipeline\<close>

fun path_of :: "path_or_false \<Rightarrow> string" where
  \<comment> \<open>the string of a value that passed \<open>if f\<close>\<close>
  "path_of (Path p) = p"
| "path_of PFalse = []"

definition is_file :: "'c node \<Rightarrow> bool" where
  "is_file n = (case n of File c \<Rightarrow> True | Dir \<Rightarrow> False)"

definition get_all_files :: "string \<Rightarrow> ('c, 's) world \<Rightarrow> string list" where
  \<comment> \<open>\<open>os.walk(directory)\<close>, then the paths that are files\<close>
  "get_all_files directory w =
     map fst (filter (\<lambda>(p, n). under directory p \<and> is_file n) (disk w))"

definition process_image ::
  "('c, 's) env \<Rightarrow> uploader \<Rightarrow> string \<Rightarrow> ('c, 's) world \<Rightarrow> ((exn + int) \<times> ('c, 's) world) option"
where
  "process_image E u path w =
     (case rename_path u path w of
        (renamed_path, w1) \<Rightarrow>
          if truthy renamed_path then
            (case convert_image E (path_of renamed_path) w1 of
               (Inl e, w2) \<Rightarrow> Some (Inl e, w2)
             | (Inr converted_path, w2) \<Rightarrow>
                 if truthy converted_path then
                   (case upload_image E (path_of converted_path) w2 of
                      None \<Rightarrow> None
                    | Some (Inl e, w3) \<Rightarrow> Some (Inl e, w3)
                    | Some (Inr result, w3) \<Rightarrow>
                        if result
                        then Some (Inr 0, success u (SuccessfullyUploaded (original_image_path u)) w3)
                        else Some (Inr 1,
                               error (UploadFailedCouldNotUpload (original_image_path u)
                                        (path_of converted_path)) None (silent u) w3))
                 else Some (Inr 1,
                        error (UploadFailedCouldNotConvert (original_image_path u)
                                 (path_of renamed_path)) None (silent u) w2))
          else Some (Inr 1,
                 error (UploadFailedCouldNotRename (original_image_path u) path)
                   None (silent u) w1))"

fun rename_paths ::
  "uploader \<Rightarrow> string list \<Rightarrow> ('c, 's) world \<Rightarrow> path_or_false list \<times> ('c, 's) world"
where
  \<comment> \<open>\<open>[self.rename_path(path=x) for x in image_paths]\<close>\<close>
  "rename_paths u [] w = ([], w)"
| "rename_paths u (x # xs) w =
     (case rename_path u x w of
        (r, w1) \<Rightarrow> (case rename_paths u xs w1 of (rs, w2) \<Rightarrow> (r # rs, w2)))"

fun convert_images ::
  "('c, 's) env \<Rightarrow> string list \<Rightarrow> ('c, 's) world \<Rightarrow> (exn + path_or_false list) \<times> ('c, 's) world"
where
  \<comment> \<open>\<open>[self.convert_image(x) for x in renamed_image_paths]\<close>\<close>
  "convert_images E [] w = (Inr [], w)"
| "convert_images E (x # xs) w =
     (case convert_image E x w of
        (Inl e, w1) \<Rightarrow> (Inl e, w1)
      | (Inr r, w1) \<Rightarrow>
          (case convert_images E xs w1 of
             (Inl e, w2) \<Rightarrow> (Inl e, w2)
           | (Inr rs, w2) \<Rightarrow> (Inr (r # rs), w2)))"

definition process_images ::
  "('c, 's) env \<Rightarrow> uploader \<Rightarrow> string \<Rightarrow> ('c, 's) world \<Rightarrow> (exn + int) \<times> uploader \<times> ('c, 's) world"
where
  "process_images E u images_directory w =
     (case rename_paths u (get_all_files images_directory w) w of
        (all_renamed, w1) \<Rightarrow>
          (let renamed_image_paths = filter truthy all_renamed in
           if length renamed_image_paths = 0 then
             (Inr 1, u, error (NoImagesAfterRenaming (original_image_path u)) None (silent u) w1)
           else
             (case convert_images E (map path_of renamed_image_paths) w1 of
                (Inl e, w2) \<Rightarrow> (Inl e, u, w2)
              | (Inr all_converted, w2) \<Rightarrow>
                  (let converted_image_paths = filter truthy all_converted in
                   if length converted_image_paths = 0 then
                     (Inr 1, u,
                      error (NoImagesAfterConversion (original_image_path u)) None (silent u) w2)
                   else
                     (case start_uploader_thread u w2 of
                        (u1, w3) \<Rightarrow>
                          (case queue_images_for_upload u1 (map path_of converted_image_paths) of
                             (val, u2) \<Rightarrow>
                               if silent u2 then
                                 (case wait_on_uploader_thread E u2 w3 of
                                    (u3, w4) \<Rightarrow>
                                      (case examine_bg_results u3 w4 of
                                         (num, w5) \<Rightarrow> (Inr num, u3, w5)))
                               else (Inr val, u2, w3)))))))"

section \<open>The background worker\<close>

text \<open>
  \<open>BGRunner\<close> holds the queue of the instance that made it and an uploader of its own,
  whose \<open>run\<close> is the pipeline for one item. The worker is stated for any such
  \<open>run\<close>: a function of the uploader and the world that returns the result code, raises,
  or does not return.
\<close>

datatype signal =
    Result int string
    \<comment> \<open>\<open>self.result.emit((r, image))\<close>\<close>
  | Done int
    \<comment> \<open>\<open>self.done.emit(0)\<close>\<close>

type_synonym 'w uploader_run = "uploader \<Rightarrow> 'w \<Rightarrow> ((exn + int) \<times> uploader \<times> 'w) option"

definition BGRunner_body ::
  "'w uploader_run \<Rightarrow> string \<times> string \<Rightarrow> uploader \<Rightarrow> 'w \<Rightarrow> ((exn + signal) \<times> uploader \<times> 'w) option"
where
  \<comment> \<open>one turn of the loop, for the item that \<open>self.tasks.get()\<close> returned\<close>
  "BGRunner_body run task u w =
     (case task of
        (hawb, img) \<Rightarrow>
          (case run (u\<lparr>hawb_number := hawb, original_image_path := img\<rparr>) w of
             None \<Rightarrow> None
           | Some (Inl e, u1, w1) \<Rightarrow> Some (Inl e, u1, w1)
           | Some (Inr r, u1, w1) \<Rightarrow> Some (Inr (Result r img), u1, w1)))"

fun BGRunner_loop ::
  "'w uploader_run \<Rightarrow> (string \<times> string) list \<Rightarrow> uploader \<Rightarrow> 'w \<Rightarrow> signal list
     \<Rightarrow> ((exn + unit) \<times> signal list \<times> (string \<times> string) list \<times> uploader \<times> 'w) option"
where
  \<comment> \<open>the \<open>while True\<close> loop over a queue that nobody else touches meanwhile; the fifth
      argument is what has been emitted so far\<close>
  "BGRunner_loop run [] u w emitted = Some (Inr (), emitted, [], u, w)"
| "BGRunner_loop run (task # tasks) u w emitted =
     (case BGRunner_body run task u w of
        None \<Rightarrow> None
      | Some (Inl e, u1, w1) \<Rightarrow> Some (Inl e, emitted, tasks, u1, w1)
      | Some (Inr s, u1, w1) \<Rightarrow> BGRunner_loop run tasks u1 w1 (emitted @ [s]))"

definition BGRunner_run ::
  "'w uploader_run \<Rightarrow> (string \<times> string) list \<Rightarrow> uploader \<Rightarrow> 'w
     \<Rightarrow> ((exn + unit) \<times> signal list \<times> (string \<times> string) list \<times> uploader \<times> 'w) option"
where
  "BGRunner_run run tasks u w =
     (case BGRunner_loop run tasks u w [] of
        None \<Rightarrow> None
      | Some (Inl e, emitted, rest) \<Rightarrow> Some (Inl e, emitted, rest)
      | Some (Inr _, emitted, rest) \<Rightarrow> Some (Inr (), emitted @ [Done 0], rest))"

text \<open>
  The worker runs in a thread of its own, which \<open>process_images\<close> starts before it puts
  the items on the queue. The two threads are the transitions of one system: the caller
  puts the next item; the worker takes the head of the queue through one turn of its
  loop, or finds the queue empty, leaves the loop and emits \<open>done\<close>.
\<close>

datatype worker = Running | Finished | Raised exn

record 'w system =
  pending :: "(string \<times> string) list"
  queue :: "(string \<times> string) list"
  worker_state :: worker
  emitted :: "signal list"
  worker_uploader :: uploader
  shared :: 'w

inductive step :: "'w uploader_run \<Rightarrow> 'w system \<Rightarrow> 'w system \<Rightarrow> bool" for run where
  put: "pending s = x # xs \<Longrightarrow> step run s (s\<lparr>pending := xs, queue := queue s @ [x]\<rparr>)"
| turn:
    "worker_state s = Running \<Longrightarrow> queue s = task # rest \<Longrightarrow>
     BGRunner_body run task (worker_uploader s) (shared s) = Some (Inr sg, u1, w1) \<Longrightarrow>
     step run s
       (s\<lparr>queue := rest, emitted := emitted s @ [sg], worker_uploader := u1, shared := w1\<rparr>)"
| raise:
    "worker_state s = Running \<Longrightarrow> queue s = task # rest \<Longrightarrow>
     BGRunner_body run task (worker_uploader s) (shared s) = Some (Inl e, u1, w1) \<Longrightarrow>
     step run s
       (s\<lparr>queue := rest, worker_state := Raised e, worker_uploader := u1, shared := w1\<rparr>)"
| leave:
    "worker_state s = Running \<Longrightarrow> queue s = [] \<Longrightarrow>
     step run s (s\<lparr>worker_state := Finished, emitted := emitted s @ [Done 0]\<rparr>)"

definition start :: "(string \<times> string) list \<Rightarrow> uploader \<Rightarrow> 'w \<Rightarrow> 'w system" where
  \<comment> \<open>the thread has been started and nothing has been put yet\<close>
  "start items u w =
     \<lparr>pending = items, queue = [], worker_state = Running, emitted = [],
      worker_uploader = u, shared = w\<rparr>"

definition outcomes :: "int list \<Rightarrow> (string \<times> string) list \<Rightarrow> signal list" where
  \<comment> \<open>one \<open>result\<close> signal for each item, in the order of the items\<close>
  "outcomes rs items = map (\<lambda>(r, t). Result r (snd t)) (zip rs items)"

definition drained_inv :: "(string \<times> string) list \<Rightarrow> 'w system \<Rightarrow> bool" where
  \<comment> \<open>what every state of a run satisfies: the items split into those with an outcome, at
      most one on which the worker raised, the queue, and those still to be put\<close>
  "drained_inv items s =
     (\<exists>ds rs cs. items = ds @ cs @ queue s @ pending s \<and> length rs = length ds
        \<and> emitted s = outcomes rs ds @ (if worker_state s = Finished then [Done 0] else [])
        \<and> (cs = [] \<or> (\<exists>e. worker_state s = Raised e)))"

section \<open>Reports for one file and for the batch\<close>

fun is_batch_message :: "message \<Rightarrow> bool" where
  "is_batch_message (NoImagesAfterRenaming p) = True"
| "is_batch_message (NoImagesAfterConversion p) = True"
| "is_batch_message _ = False"

fun per_file_event :: "event \<Rightarrow> bool" where
  \<comment> \<open>neither the start of the thread nor a report about the batch\<close>
  "per_file_event ThreadStart = False"
| "per_file_event (ShowError m) = (\<not> is_batch_message m)"
| "per_file_event (PrintErr m) = (\<not> is_batch_message m)"
| "per_file_event _ = True"

section \<open>Page markers in a file name\<close>

fun has_page_marker :: "string \<Rightarrow> bool" where
  \<comment> \<open>somewhere in the name, \<open>_page\<close> with a digit after it\<close>
  "has_page_marker [] = False"
| "has_page_marker (c # cs) =
     ((startswith ''_page'' (c # cs) \<and> list_ex is_digit (take 1 (drop 5 (c # cs))))
      \<or> has_page_marker cs)"

section \<open>Example inputs\<close>

text \<open>
  A file is represented by its size in bytes. The codec opens every file as an image of
  1000 by 1000 pixels and a thumbnail pass turns the size \<open>c\<close> into \<open>shrink c\<close>; the
  server answers the request for a file of size \<open>c\<close> with \<open>answer c\<close>.
\<close>

definition example_env :: "(nat \<Rightarrow> nat) \<Rightarrow> (nat \<Rightarrow> exn + response) \<Rightarrow> (nat, unit) env" where
  "example_env shrink answer =
     \<lparr>st_size = (\<lambda>n. case n of File c \<Rightarrow> c | Dir \<Rightarrow> 4096),
      image_size = (\<lambda>c. Inr (1000, 1000)),
      thumbnail_save = (\<lambda>sz c. Inr (shrink c)),
      tiff_save = (\<lambda>c. Inr c),
      session_send = (\<lambda>name c s. (answer c, s)),
      join_worker = (\<lambda>u w. (u, w))\<rparr>"

definition keeps_size :: "nat \<Rightarrow> nat" where
  \<comment> \<open>a pass that writes as many bytes as it read\<close>
  "keeps_size c = c"

definition shrinks :: "nat \<Rightarrow> nat" where
  \<comment> \<open>a pass that writes 0.8 * 0.8 of the bytes it read\<close>
  "shrinks c = c * 16 div 25"

definition always :: "exn + response \<Rightarrow> nat \<Rightarrow> exn + response" where
  \<comment> \<open>a server with one answer for every file\<close>
  "always a c = a"

definition one_file :: "nat \<Rightarrow> (nat, unit) world" where
  "one_file c = \<lparr>disk = [(''/d'', Dir), (''/d/a.tif'', File c)], net = (), trace = []\<rparr>"



definition example_uploader :: uploader where
  "example_uploader = init \<lparr>Ymd = ''20240131'', HMS = ''235959''\<rparr> ''123'' ''/d'' True False"

definition size_limited :: "nat \<Rightarrow> exn + response" where
  \<comment> \<open>a server that refuses files above its limit with the size-limit error\<close>
  "size_limited c =
     (if c > 1000000
      then Inr \<lparr>status_code = 500,
                resp_text = ''Error: SizeLimitExceededException: too large''\<rparr>
      else Inr \<lparr>status_code = 200, resp_text = ''OK''\<rparr>)"

definition no_tiff :: "(nat, unit) env" where
  \<comment> \<open>a codec that cannot write any file as TIFF\<close>
  "no_tiff = (example_env keeps_size size_limited)\<lparr>tiff_save := (\<lambda>c. Inl (OSError EIO))\<rparr>"

definition always_ok :: "unit uploader_run" where
  \<comment> \<open>a pipeline that succeeds on every item\<close>
  "always_ok u w = Some (Inr 0, u, w)"

definition two_items :: "(string \<times> string) list" where
  "two_items = [(''123'', ''/d/a.tif''), (''123'', ''/d/b.tif'')]"

definition drained :: "uploader \<Rightarrow> unit system" where
  "drained u =
     \<lparr>pending = [], queue = [], worker_state = Finished,
      emitted = [Result 0 ''/d/a.tif'', Result 0 ''/d/b.tif'', Done 0],
      worker_uploader = u\<lparr>hawb_number := ''123'', original_image_path := ''/d/b.tif''\<rparr>,
      shared = ()\<rparr>"

section \<open>Facts about strings and paths\<close>

lemma startswith_iff: "startswith pre s \<longleftrightarrow> (\<exists>zs. s = pre @ zs)"
  unfolding startswith_def
  by (metis append_eq_conv_conj append_take_drop_id)

lemma split_parts:
  "rev (dropWhile (\<lambda>c. c \<noteq> sep) (rev p)) @ rev (takeWhile (\<lambda>c. c \<noteq> sep) (rev p)) = p"
  by (metis rev_append rev_rev_ident takeWhile_dropWhile_id)

lemma tail_no_sep: "sep \<notin> set (rev (takeWhile (\<lambda>c. c \<noteq> sep) (rev p)))"
  by (auto dest: set_takeWhileD)

lemma rstrip_parts: "\<exists>ss. h = rstrip_sep h @ ss \<and> set ss \<subseteq> {sep}"
proof -
  have "rev (dropWhile (\<lambda>c. c = sep) (rev h)) @ rev (takeWhile (\<lambda>c. c = sep) (rev h)) = h"
    by (metis rev_append rev_rev_ident takeWhile_dropWhile_id)
  moreover have "set (rev (takeWhile (\<lambda>c. c = sep) (rev h))) \<subseteq> {sep}"
    by (auto dest: set_takeWhileD)
  ultimately show ?thesis unfolding rstrip_sep_def by metis
qed

lemma rstrip_last: "rstrip_sep h \<noteq> [] \<Longrightarrow> last (rstrip_sep h) \<noteq> sep"
  unfolding rstrip_sep_def
  by (metis (mono_tags, lifting) dropWhile_eq_Nil_conv hd_dropWhile last_rev rev_is_Nil_conv)

lemma get_new_filename_h:
  "f \<noteq> [] \<Longrightarrow> \<exists>rest. get_new_filename ts hawb f = CHR ''h'' # rest"
  by (simp add: get_new_filename_def)

lemma endswith_sep_iff: "endswith [sep] d \<longleftrightarrow> d \<noteq> [] \<and> last d = sep"
  by (cases d rule: rev_cases) (simp_all add: endswith_def startswith_def)

lemma head_last_sep:
  "rev (dropWhile (\<lambda>c. c \<noteq> sep) (rev p)) \<noteq> [] \<Longrightarrow>
   last (rev (dropWhile (\<lambda>c. c \<noteq> sep) (rev p))) = sep"
  by (metis (mono_tags, lifting) hd_dropWhile last_rev rev_is_Nil_conv)

lemma not_under_renamed:
  assumes "snd (os_path_split path) \<noteq> []"
  shows "\<not> under (renamed_path_of u path) path"
proof
  define h0 where "h0 = rev (dropWhile (\<lambda>c. c \<noteq> sep) (rev path))"
  define t where "t = rev (takeWhile (\<lambda>c. c \<noteq> sep) (rev path))"
  define d where "d = fst (os_path_split path)"
  have path: "path = h0 @ t" unfolding h0_def t_def by (simp add: split_parts)
  have t: "t \<noteq> []" "sep \<notin> set t"
    using assms tail_no_sep [of path] unfolding t_def os_path_split_def by (simp_all add: Let_def)
  have snd: "snd (os_path_split path) = t" unfolding t_def os_path_split_def by (simp add: Let_def)
  obtain rest where new: "get_new_filename (timestamp u) (hawb_number u) t = CHR ''h'' # rest"
    using get_new_filename_h [OF t(1)] by blast
  have dst: "renamed_path_of u path = os_path_join d (CHR ''h'' # rest)"
    unfolding renamed_path_of_def d_def using snd new
    by (simp add: case_prod_unfold Let_def)
  have fst: "d = (if h0 \<noteq> [] \<and> \<not> list_all (\<lambda>c. c = sep) h0 then rstrip_sep h0 else h0)"
    unfolding d_def h0_def os_path_split_def by (simp add: Let_def)
  have h: "CHR ''h'' \<noteq> sep" by (simp add: sep_def)
  assume "under (renamed_path_of u path) path"
  then obtain zs where "path = renamed_path_of u path @ sep # zs"
    unfolding under_def startswith_iff by auto
  with dst path have u: "h0 @ t = os_path_join d (CHR ''h'' # rest) @ sep # zs"
    by simp
  have join: "os_path_join d (CHR ''h'' # rest) =
      (if d = [] \<or> endswith [sep] d then d @ CHR ''h'' # rest else d @ sep # CHR ''h'' # rest)"
    using h by (simp add: os_path_join_def startswith_def)
  show False
  proof (cases "h0 \<noteq> [] \<and> \<not> list_all (\<lambda>c. c = sep) h0")
    case False
    with fst have d: "d = h0" by simp
    have "d = [] \<or> endswith [sep] d"
    proof (cases "h0 = []")
      case True
      with d show ?thesis by simp
    next
      case nonempty: False
      with head_last_sep [of path] have "last h0 = sep" unfolding h0_def by simp
      with nonempty d show ?thesis by (simp add: endswith_sep_iff)
    qed
    with u join d have "t = CHR ''h'' # rest @ sep # zs" by simp
    with t(2) show False by simp
  next
    case True
    with fst have d: "d = rstrip_sep h0" by simp
    obtain ss where ss: "h0 = d @ ss" "set ss \<subseteq> {sep}"
      using rstrip_parts [of h0] d by auto
    have dne: "d \<noteq> []"
    proof
      assume "d = []"
      with ss have "list_all (\<lambda>c. c = sep) h0" by (auto simp add: list_all_iff)
      with True show False by simp
    qed
    with rstrip_last [of h0] d have ld: "last d \<noteq> sep" by simp
    have "last h0 = sep" using True head_last_sep [of path] unfolding h0_def by simp
    with ss(1) ld dne have "ss \<noteq> []" by auto
    then obtain ss' where ss': "ss = sep # ss'" using ss(2) by (cases ss) auto
    from ld dne have "\<not> (d = [] \<or> endswith [sep] d)" by (simp add: endswith_sep_iff)
    with u join ss(1) ss' have eq: "ss' @ t = CHR ''h'' # rest @ sep # zs" by simp
    show False
    proof (cases ss')
      case Nil
      with eq t(2) show False by simp
    next
      case (Cons x xs)
      with ss(2) ss' have "x = sep" by simp
      with eq Cons h show False by simp
    qed
  qed
qed

lemma page_match_no_digit:
  "\<not> (startswith ''_page'' s \<and> list_ex is_digit (take 1 (drop 5 s))) \<Longrightarrow> page_match s = None"
proof (cases "startswith ''_page'' s")
  case False
  then show ?thesis by (simp add: page_match_def)
next
  case True
  assume "\<not> (startswith ''_page'' s \<and> list_ex is_digit (take 1 (drop 5 s)))"
  with True have nd: "\<not> list_ex is_digit (take 1 (drop 5 s))" by simp
  have "takeWhile is_digit (take 6 (drop 5 s)) = []"
  proof (cases "drop 5 s")
    case Nil
    then show ?thesis by simp
  next
    case (Cons d ds)
    with nd show ?thesis by simp
  qed
  with True show ?thesis by (simp add: page_match_def Let_def)
qed

lemma no_marker_no_match: "\<not> has_page_marker s \<Longrightarrow> page_search s = None"
proof (induction s)
  case Nil
  then show ?case by (simp add: page_match_def startswith_def)
next
  case (Cons c cs)
  from Cons.prems have "\<not> ((startswith ''_page'' (c # cs)
        \<and> list_ex is_digit (take 1 (drop 5 (c # cs)))) \<or> has_page_marker cs)"
    unfolding has_page_marker.simps .
  then have a: "\<not> (startswith ''_page'' (c # cs) \<and> list_ex is_digit (take 1 (drop 5 (c # cs))))"
    and b: "\<not> has_page_marker cs"
    by blast+
  from page_match_no_digit [OF a] Cons.IH [OF b] show ?case
    by (simp only: page_search.simps option.case)
qed

lemma renamed_path_plain:
  assumes "snd (os_path_split p) \<noteq> []" and "\<not> has_page_marker (snd (os_path_split p))"
  shows "renamed_path_of u p =
     os_path_join (fst (os_path_split p))
       (''h'' @ hawb_number u @ ''-'' @ Ymd (timestamp u) @ ''-'' @ HMS (timestamp u)
          @ snd (os_path_splitext (snd (os_path_split p))))"
  using assms(1) no_marker_no_match [OF assms(2)]
  by (simp add: renamed_path_of_def get_new_filename_def case_prod_unfold Let_def)

section \<open>Properties of the Namer\<close>

text \<open>
  C2. The marker that \<open>get_new_filename\<close> copies from \<open>foo_page12_page3.tif\<close> should be
  \<open>_page3\<close>, the one that no other \<open>_page\<close> follows. The search stops at \<open>_page12\<close>:
  with two digits the lookahead fails, the quantifier gives one digit back, and
  \<open>_page1\<close>, followed by \<open>2\<close>, matches. The new name carries \<open>_page1\<close>.
\<close>

theorem get_new_filename_page12_page3:
  "get_new_filename \<lparr>Ymd = ''20240131'', HMS = ''235959''\<rparr> ''123'' ''foo_page12_page3.tif''
     = ''h123-20240131-235959_page1.tif''"
  by (simp add: get_new_filename_def page_match_def startswith_def os_path_splitext_def
      sep_def extsep_def is_digit_def)

section \<open>Properties of the PathMover\<close>

lemmas path_simps =
  renamed_path_of_def os_path_split_def os_path_join_def os_path_splitext_def get_new_filename_def
  rstrip_sep_def startswith_def endswith_def sep_def extsep_def page_match_def is_digit_def
  example_uploader_def init_def

lemmas disk_simps =
  rename_path_def rename_def os_renames_def shutil_rmtree_def os_rename_def rmtree_def
  remove_entry_def remove_tree_def move_tree_def under_def emit_def error_def

lemma map_of_remove_tree:
  "map_of (remove_tree d fs) p = (if p \<noteq> d \<and> \<not> under d p then map_of fs p else None)"
  unfolding remove_tree_def by (induction fs) auto

lemma os_rename_OSError: "os_rename fs a b = Inl e \<Longrightarrow> is_OSError e"
  by (auto simp add: os_rename_def split: option.splits node.splits if_splits)

lemma os_rename_File:
  "os_rename fs src dst = Inr fs' \<Longrightarrow> map_of fs src = Some (File c) \<Longrightarrow>
   map_of fs' dst = Some (File c)"
  by (auto simp add: os_rename_def split: option.splits node.splits if_splits)

lemma os_rename_same_Dir: "map_of fs p = Some Dir \<Longrightarrow> os_rename fs p p = Inr fs"
  by (simp add: os_rename_def)

lemma rmtree_Inr: "rmtree fs p = Inr fs1 \<Longrightarrow> map_of fs p = Some Dir \<and> fs1 = remove_tree p fs"
  by (auto simp add: rmtree_def split: option.splits node.splits)

lemma rename_path_first_ok:
  "os_rename (disk w) path (renamed_path_of u path) = Inr fs1 \<Longrightarrow>
   rename_path u path w =
     (Path (renamed_path_of u path),
      w\<lparr>disk := fs1, trace := trace w @ [Renames path (renamed_path_of u path)]\<rparr>)"
  by (simp add: rename_path_def rename_def os_renames_def emit_def Let_def)

lemma rename_path_rmtree_fails:
  "os_rename (disk w) path (renamed_path_of u path) = Inl e \<Longrightarrow>
   rmtree (disk w) (renamed_path_of u path) = Inl e2 \<Longrightarrow>
   rename_path u path w =
     (PFalse,
      w\<lparr>trace := trace w @ [Renames path (renamed_path_of u path), Rmtree (renamed_path_of u path),
          PrintErr (CouldNotRename path (renamed_path_of u path)), PrintExn e2]\<rparr>)"
  using os_rename_OSError [of "disk w" path "renamed_path_of u path" e]
  by (simp add: rename_path_def rename_def os_renames_def shutil_rmtree_def emit_def error_def Let_def)

lemma rename_path_retry_ok:
  "os_rename (disk w) path (renamed_path_of u path) = Inl e \<Longrightarrow>
   rmtree (disk w) (renamed_path_of u path) = Inr fs1 \<Longrightarrow>
   os_rename fs1 path (renamed_path_of u path) = Inr fs2 \<Longrightarrow>
   rename_path u path w =
     (Path (renamed_path_of u path),
      w\<lparr>disk := fs2,
        trace := trace w @ [Renames path (renamed_path_of u path), Rmtree (renamed_path_of u path),
          Renames path (renamed_path_of u path)]\<rparr>)"
  using os_rename_OSError [of "disk w" path "renamed_path_of u path" e]
  by (simp add: rename_path_def rename_def os_renames_def shutil_rmtree_def emit_def error_def Let_def)

lemma rename_path_retry_fails:
  "os_rename (disk w) path (renamed_path_of u path) = Inl e \<Longrightarrow>
   rmtree (disk w) (renamed_path_of u path) = Inr fs1 \<Longrightarrow>
   os_rename fs1 path (renamed_path_of u path) = Inl e3 \<Longrightarrow>
   rename_path u path w =
     (PFalse,
      w\<lparr>disk := fs1,
        trace := trace w @ [Renames path (renamed_path_of u path), Rmtree (renamed_path_of u path),
          Renames path (renamed_path_of u path),
          PrintErr (CouldNotRename path (renamed_path_of u path)), PrintExn e3]\<rparr>)"
  using os_rename_OSError [of "disk w" path "renamed_path_of u path" e]
  by (simp add: rename_path_def rename_def os_renames_def shutil_rmtree_def emit_def error_def Let_def)

lemma source_survives_rmtree:
  assumes first: "os_rename fs path dst = Inl e"
    and rm: "rmtree fs dst = Inr fs1"
    and nu: "\<not> under dst path"
  shows "map_of fs1 path = map_of fs path"
proof -
  from rmtree_Inr [OF rm] have d: "map_of fs dst = Some Dir" and fs1: "fs1 = remove_tree dst fs"
    by simp_all
  have "path \<noteq> dst"
  proof
    assume "path = dst"
    with d os_rename_same_Dir [of fs dst] first show False by simp
  qed
  with nu fs1 show ?thesis by (simp add: map_of_remove_tree)
qed

text \<open>
  C5, as the claim has it: whenever an entry exists at the destination, the mover clears
  the destination and retries once. A file at the destination does not make
  \<open>os.renames\<close> raise on POSIX: the first attempt replaces it, and neither
  \<open>shutil.rmtree\<close> nor a second attempt happens. Here \<open>/d/a.tif\<close> is moved onto the
  existing file \<open>/d/h123-20240131-235959.tif\<close>, whose contents are lost.
\<close>

theorem rename_path_replaces_file:
  "rename_path example_uploader ''/d/a.tif''
     \<lparr>disk = [(''/d'', Dir), (''/d/a.tif'', File (1::nat)), (''/d/h123-20240131-235959.tif'', File 2)],
      net = (), trace = []\<rparr>
   = (Path ''/d/h123-20240131-235959.tif'',
      \<lparr>disk = [(''/d/h123-20240131-235959.tif'', File 1), (''/d'', Dir)], net = (),
       trace = [Renames ''/d/a.tif'' ''/d/h123-20240131-235959.tif'']\<rparr>)"
  by (simp add: path_simps disk_simps Let_def)

text \<open>
  C5, amended. For a path with a last component, as every path of a file has:
  when the first \<open>os.renames\<close> does not raise, the move is that one call, with no
  clearing and no retry. When it raises, \<open>shutil.rmtree\<close> is called on the destination
  next, before any other attempt, and the move is retried exactly once if the clearing
  succeeded and not at all if it failed. The outcome is then either the new path, or
  \<open>False\<close> with "Could not rename" and the exception printed to the error stream, and
  in that case the entry at the source path is what it was.
\<close>

theorem rename_path_clear_and_retry:
  assumes "snd (os_path_split path) \<noteq> []"
  shows "case os_rename (disk w) path (renamed_path_of u path) of
      Inr fs1 \<Rightarrow>
        rename_path u path w =
          (Path (renamed_path_of u path),
           w\<lparr>disk := fs1, trace := trace w @ [Renames path (renamed_path_of u path)]\<rparr>)
    | Inl e \<Rightarrow>
        (\<exists>tail.
           trace (snd (rename_path u path w)) =
             trace w @ [Renames path (renamed_path_of u path), Rmtree (renamed_path_of u path)]
               @ (case rmtree (disk w) (renamed_path_of u path) of
                    Inl e2 \<Rightarrow> [] | Inr fs1 \<Rightarrow> [Renames path (renamed_path_of u path)])
               @ tail
           \<and> (fst (rename_path u path w) = Path (renamed_path_of u path) \<and> tail = []
                \<and> (\<exists>fs1. rmtree (disk w) (renamed_path_of u path) = Inr fs1)
              \<or> fst (rename_path u path w) = PFalse
                \<and> (\<exists>e'. tail = [PrintErr (CouldNotRename path (renamed_path_of u path)), PrintExn e'])
                \<and> map_of (disk (snd (rename_path u path w))) path = map_of (disk w) path))"
proof (cases "os_rename (disk w) path (renamed_path_of u path)")
  case (Inr fs1)
  with rename_path_first_ok [OF Inr] show ?thesis by simp
next
  case (Inl e)
  note first = Inl
  show ?thesis
  proof (cases "rmtree (disk w) (renamed_path_of u path)")
    case (Inl e2)
    with first rename_path_rmtree_fails [OF first Inl] show ?thesis by simp
  next
    case (Inr fs1)
    note rm = Inr
    show ?thesis
    proof (cases "os_rename fs1 path (renamed_path_of u path)")
      case (Inr fs2)
      with first rm rename_path_retry_ok [OF first rm Inr] show ?thesis by simp
    next
      case (Inl e3)
      have "map_of fs1 path = map_of (disk w) path"
        using source_survives_rmtree [OF first rm not_under_renamed [OF assms]] .
      with first rm rename_path_retry_fails [OF first rm Inl] show ?thesis by simp
    qed
  qed
qed

theorem rename_path_clear_and_retry_witness:
  "snd (os_path_split ''/d/a.tif'') \<noteq> []
   \<and> os_rename [(''/d'', Dir), (''/d/a.tif'', File (1::nat)),
         (''/d/h123-20240131-235959.tif'', Dir),
         (''/d/h123-20240131-235959.tif/old.tif'', File 2)]
        ''/d/a.tif'' ''/d/h123-20240131-235959.tif'' = Inl (OSError EISDIR)
   \<and> rename_path example_uploader ''/d/a.tif''
        \<lparr>disk = [(''/d'', Dir), (''/d/a.tif'', File (1::nat)), (''/d/h123-20240131-235959.tif'', Dir),
                 (''/d/h123-20240131-235959.tif/old.tif'', File 2)],
         net = (), trace = []\<rparr>
      = (Path ''/d/h123-20240131-235959.tif'',
         \<lparr>disk = [(''/d/h123-20240131-235959.tif'', File 1), (''/d'', Dir)], net = (),
          trace = [Renames ''/d/a.tif'' ''/d/h123-20240131-235959.tif'',
                   Rmtree ''/d/h123-20240131-235959.tif'',
                   Renames ''/d/a.tif'' ''/d/h123-20240131-235959.tif'']\<rparr>)"
  using rename_path_clear_and_retry [where path = "''/d/a.tif''" and u = example_uploader and w =
      "\<lparr>disk = [(''/d'', Dir), (''/d/a.tif'', File (1::nat)), (''/d/h123-20240131-235959.tif'', Dir),
                 (''/d/h123-20240131-235959.tif/old.tif'', File 2)],
         net = (), trace = []\<rparr>"]
  by (simp add: path_simps disk_simps Let_def)

lemma rename_path_File:
  assumes r: "rename_path u p w = (Path q, w1)" and f: "map_of (disk w) p = Some (File c)"
  shows "q = renamed_path_of u p \<and> map_of (disk w1) q = Some (File c)"
proof (cases "os_rename (disk w) p (renamed_path_of u p)")
  case (Inr fs1)
  from r rename_path_first_ok [OF Inr] have "q = renamed_path_of u p" "disk w1 = fs1"
    by auto
  with os_rename_File [OF Inr f] show ?thesis by simp
next
  case (Inl e)
  note first = Inl
  show ?thesis
  proof (cases "rmtree (disk w) (renamed_path_of u p)")
    case (Inl e2)
    with r rename_path_rmtree_fails [OF first Inl] show ?thesis by simp
  next
    case (Inr fs1)
    note rm = Inr
    show ?thesis
    proof (cases "os_rename fs1 p (renamed_path_of u p)")
      case (Inl e3)
      with r rename_path_retry_fails [OF first rm Inl] show ?thesis by simp
    next
      case (Inr fs2)
      from Inr have "map_of fs1 p \<noteq> None"
        by (auto simp add: os_rename_def split: option.splits)
      with rmtree_Inr [OF rm] f have "map_of fs1 p = Some (File c)"
        by (simp add: map_of_remove_tree split: if_splits)
      from os_rename_File [OF Inr this] r rename_path_retry_ok [OF first rm Inr] show ?thesis
        by auto
    qed
  qed
qed

lemma second_targets_first:
  assumes "renamed_path_of u p2 = renamed_path_of u p1"
    and "map_of (disk w) p1 = Some (File c)" and "rename_path u p1 w = (Path q, w1)"
  shows "renamed_path_of u p2 = q \<and> map_of (disk w1) (renamed_path_of u p2) = Some (File c)"
proof -
  from rename_path_File [OF assms(3) assms(2)]
  have "q = renamed_path_of u p1" and "map_of (disk w1) q = Some (File c)" by blast+
  with assms(1) show ?thesis by simp
qed

text \<open>
  C9. The timestamp of an instance is the one given to \<open>__init__\<close>; queueing and
  starting the thread leave it as it is, and no other method assigns it. The destination
  that \<open>rename_path\<close> computes depends on the file only through its directory, its
  extension and its page marker. For two files of one directory with the same extension
  and no page marker, the two destinations are the same path: once the first file has
  been moved there, the move of the second file is aimed at the path that holds the
  first file.
\<close>

theorem same_destination:
  assumes "fst (os_path_split p1) = fst (os_path_split p2)"
    and "snd (os_path_split p1) \<noteq> []" and "snd (os_path_split p2) \<noteq> []"
    and "snd (os_path_splitext (snd (os_path_split p1)))
         = snd (os_path_splitext (snd (os_path_split p2)))"
    and "\<not> has_page_marker (snd (os_path_split p1))"
    and "\<not> has_page_marker (snd (os_path_split p2))"
  shows "timestamp (init now hawb path sil verb) = now
     \<and> timestamp (snd (queue_images_for_upload u ps)) = timestamp u
     \<and> timestamp (fst (start_uploader_thread u w0)) = timestamp u
     \<and> renamed_path_of u p1 =
         os_path_join (fst (os_path_split p1))
           (''h'' @ hawb_number u @ ''-'' @ Ymd (timestamp u) @ ''-'' @ HMS (timestamp u)
              @ snd (os_path_splitext (snd (os_path_split p1))))
     \<and> renamed_path_of u p2 = renamed_path_of u p1
     \<and> (\<forall>w c q w1. map_of (disk w) p1 = Some (File c) \<and> rename_path u p1 w = (Path q, w1)
          \<longrightarrow> renamed_path_of u p2 = q \<and> map_of (disk w1) (renamed_path_of u p2) = Some (File c))"
proof -
  have 1: "timestamp (init now hawb path sil verb) = now" by (simp add: init_def)
  have 2: "renamed_path_of u p1 =
         os_path_join (fst (os_path_split p1))
           (''h'' @ hawb_number u @ ''-'' @ Ymd (timestamp u) @ ''-'' @ HMS (timestamp u)
              @ snd (os_path_splitext (snd (os_path_split p1))))"
    by (rule renamed_path_plain [OF assms(2) assms(5)])
  have 3: "renamed_path_of u p2 = renamed_path_of u p1"
  proof -
    have "renamed_path_of u p2 =
         os_path_join (fst (os_path_split p2))
           (''h'' @ hawb_number u @ ''-'' @ Ymd (timestamp u) @ ''-'' @ HMS (timestamp u)
              @ snd (os_path_splitext (snd (os_path_split p2))))"
      by (rule renamed_path_plain [OF assms(3) assms(6)])
    also have "\<dots> = os_path_join (fst (os_path_split p1))
           (''h'' @ hawb_number u @ ''-'' @ Ymd (timestamp u) @ ''-'' @ HMS (timestamp u)
              @ snd (os_path_splitext (snd (os_path_split p1))))"
      by (simp only: assms(1) assms(4))
    also have "\<dots> = renamed_path_of u p1" by (rule 2 [symmetric])
    finally show ?thesis .
  qed
  show ?thesis
  proof (intro conjI allI impI)
    show "timestamp (init now hawb path sil verb) = now" by (rule 1)
    show "timestamp (snd (queue_images_for_upload u ps)) = timestamp u"
      by (simp add: queue_images_for_upload_def)
    show "timestamp (fst (start_uploader_thread u w0)) = timestamp u"
      by (simp add: start_uploader_thread_def)
    show "renamed_path_of u p1 =
         os_path_join (fst (os_path_split p1))
           (''h'' @ hawb_number u @ ''-'' @ Ymd (timestamp u) @ ''-'' @ HMS (timestamp u)
              @ snd (os_path_splitext (snd (os_path_split p1))))" by (rule 2)
    show "renamed_path_of u p2 = renamed_path_of u p1" by (rule 3)
  next
    fix w c q w1
    assume "map_of (disk w) p1 = Some (File c) \<and> rename_path u p1 w = (Path q, w1)"
    then have a: "map_of (disk w) p1 = Some (File c)" and b: "rename_path u p1 w = (Path q, w1)"
      by blast+
    from second_targets_first [OF 3 a b]
    show "renamed_path_of u p2 = q" and "map_of (disk w1) (renamed_path_of u p2) = Some (File c)"
      by blast+
  qed
qed

theorem same_destination_witness:
  "fst (os_path_split ''/d/a.tif'') = fst (os_path_split ''/d/b.tif'')
   \<and> snd (os_path_split ''/d/a.tif'') \<noteq> [] \<and> snd (os_path_split ''/d/b.tif'') \<noteq> []
   \<and> snd (os_path_splitext (snd (os_path_split ''/d/a.tif'')))
       = snd (os_path_splitext (snd (os_path_split ''/d/b.tif'')))
   \<and> \<not> has_page_marker (snd (os_path_split ''/d/a.tif''))
   \<and> \<not> has_page_marker (snd (os_path_split ''/d/b.tif''))
   \<and> renamed_path_of example_uploader ''/d/a.tif'' = ''/d/h123-20240131-235959.tif''
   \<and> renamed_path_of example_uploader ''/d/b.tif'' = ''/d/h123-20240131-235959.tif''
   \<and> rename_path example_uploader ''/d/a.tif''
        \<lparr>disk = [(''/d'', Dir), (''/d/a.tif'', File (1::nat)), (''/d/b.tif'', File 2)],
         net = (), trace = []\<rparr>
      = (Path ''/d/h123-20240131-235959.tif'',
         \<lparr>disk = [(''/d/h123-20240131-235959.tif'', File 1), (''/d'', Dir),
                  (''/d/b.tif'', File 2)],
          net = (), trace = [Renames ''/d/a.tif'' ''/d/h123-20240131-235959.tif'']\<rparr>)"
  using same_destination [where ?p1.0 = "''/d/a.tif''" and ?p2.0 = "''/d/b.tif''"
      and u = example_uploader]
  by (simp add: path_simps disk_simps Let_def)

section \<open>Properties of the SizeBounder\<close>

declare compress_loop.simps [simp del]

lemma compress_loop_stops:
  "compress_loop E p passes sz w = (Inr (passes', sz'), w') \<Longrightarrow> passes \<le> Suc MAX_RESIZE_PASSES
     \<Longrightarrow> passes' \<le> Suc MAX_RESIZE_PASSES
         \<and> (sz' \<le> FILE_SIZE_LIMIT \<or> passes' = Suc MAX_RESIZE_PASSES)"
proof (induction E p passes sz w rule: compress_loop.induct)
  case (1 E p passes sz w)
  show ?case
  proof (cases "sz > FILE_SIZE_LIMIT \<and> \<not> passes > MAX_RESIZE_PASSES")
    case False
    with "1.prems" show ?thesis
      by (auto simp add: compress_loop.simps [of E p passes sz w])
  next
    case True
    with "1.prems"(1) obtain w1 n where
      r: "resave E p w = (Inr (), w1)" and s: "os_stat_size E p w1 = Inr n"
      and c: "compress_loop E p (passes + 1) n w1 = (Inr (passes', sz'), w')"
      by (auto simp add: compress_loop.simps [of E p passes sz w]
          split: prod.splits sum.splits)
    from True have "passes + 1 \<le> Suc MAX_RESIZE_PASSES" by simp
    with "1.IH" [OF True r [symmetric] refl s c] show ?thesis by simp
  qed
qed

lemma compress_loop_trace:
  "\<exists>es. trace (snd (compress_loop E p n sz w)) = trace w @ es
     \<and> set es \<subseteq> {Resave p}"
proof (induction E p n sz w rule: compress_loop.induct)
  case (1 E p passes sz w)
  show ?case
  proof (cases "sz > FILE_SIZE_LIMIT \<and> \<not> passes > MAX_RESIZE_PASSES")
    case False
    then have "compress_loop E p passes sz w = (Inr (passes, sz), w)"
      by (subst compress_loop.simps) auto
    then show ?thesis by simp
  next
    case True
    obtain r w1 where rs: "resave E p w = (r, w1)" by (cases "resave E p w")
    have t1: "trace w1 = trace w @ [Resave p]"
      using rs by (auto simp add: resave_def emit_def split: option.splits node.splits sum.splits)
    show ?thesis
    proof (cases r)
      case (Inl e)
      with True rs t1 show ?thesis by (simp add: compress_loop.simps [of E p passes sz w])
    next
      case (Inr y)
      show ?thesis
      proof (cases "os_stat_size E p w1")
        case (Inl e)
        with True rs Inr t1 show ?thesis by (simp add: compress_loop.simps [of E p passes sz w])
      next
        case st: (Inr n)
        from "1.IH" [OF True rs [symmetric] Inr st] obtain es where
          "trace (snd (compress_loop E p (passes + 1) n w1)) = trace w1 @ es" "set es \<subseteq> {Resave p}"
          by auto
        with True rs Inr st t1 show ?thesis
          by (simp add: compress_loop.simps [of E p passes sz w])
      qed
    qed
  qed
qed

lemma compress_image_trace:
  "\<exists>es. trace (snd (compress_image E p w)) = trace w @ Compress p # es \<and> set es \<subseteq> {Resave p}"
proof (cases "os_stat_size E p (emit [Compress p] w)")
  case (Inl e)
  then show ?thesis by (simp add: compress_image_def emit_def)
next
  case (Inr sz)
  from compress_loop_trace [of E p 0 sz "emit [Compress p] w"] obtain es where
    "trace (snd (compress_loop E p 0 sz (emit [Compress p] w))) = trace w @ Compress p # es"
    "set es \<subseteq> {Resave p}"
    by (auto simp add: emit_def)
  with Inr show ?thesis
    by (auto simp add: compress_image_def split: prod.splits sum.splits)
qed












section \<open>Properties of the Uploader\<close>

lemmas example_simps =
  example_env_def keeps_size_def shrinks_def always_def one_file_def post_def ok_def emit_def error_def os_path_basename_def sep_def

text \<open>
  C4, as the claim has it: every 2xx status makes the upload return \<open>True\<close>. The test in
  \<open>post\<close> is \<open>status_code == requests.codes.ok\<close>, and \<open>raise_for_status()\<close> raises for
  400 to 599 only: the answer 201 falls through to \<open>return False\<close>.
\<close>

theorem upload_image_201_is_False:
  "upload_image (example_env keeps_size (always (Inr \<lparr>status_code = 201, resp_text = []\<rparr>)))
     ''/d/a.tif'' (one_file 10)
   = Some (Inr False,
       \<lparr>disk = [(''/d'', Dir), (''/d/a.tif'', File 10)], net = (), trace = [Send ''/d/a.tif'']\<rparr>)"
  by (simp add: upload_image.simps example_simps)

text \<open>
  C4, amended: when the server answers the request for the file with status 200, the
  upload returns \<open>True\<close>, after that one request and nothing else.
\<close>

theorem upload_image_200_is_True:
  assumes "map_of (disk w) p = Some (File c)"
    and "session_send E (os_path_basename p) c (net w) = (Inr r, n')"
    and "status_code r = 200"
  shows "upload_image E p w = Some (Inr True, emit [Send p] (w\<lparr>net := n'\<rparr>))"
  using assms by (simp add: upload_image.simps post_def ok_def)

theorem upload_image_200_is_True_witness:
  "upload_image (example_env keeps_size (always (Inr \<lparr>status_code = 200, resp_text = []\<rparr>)))
     ''/d/a.tif'' (one_file 10)
   = Some (Inr True,
       \<lparr>disk = [(''/d'', Dir), (''/d/a.tif'', File 10)], net = (), trace = [Send ''/d/a.tif'']\<rparr>)"
  using upload_image_200_is_True
    [of "one_file 10" "''/d/a.tif''" 10
        "example_env keeps_size (always (Inr \<lparr>status_code = 200, resp_text = []\<rparr>))"
        "\<lparr>status_code = 200, resp_text = []\<rparr>" "()"]
  by (simp add: example_simps)

text \<open>
  C8. When sending the request for a file raises \<open>ConnectionError\<close> or \<open>Timeout\<close>,
  \<open>upload_image\<close> returns \<open>False\<close>: it does return, no exception leaves it, and the
  message and the exception have been printed to the error stream.
\<close>

theorem upload_image_transport_failure:
  assumes "map_of (disk w) p = Some (File c)"
    and "session_send E (os_path_basename p) c (net w) = (Inl e, n')"
    and "e = ConnectionError \<or> e = Timeout"
  shows "upload_image E p w =
     Some (Inr False,
       error (if e = ConnectionError then CouldNotConnect else TimedOut) (Some e) True
         (emit [Send p] (w\<lparr>net := n'\<rparr>)))"
  using assms by (auto simp add: upload_image.simps post_def)

theorem upload_image_transport_failure_witness:
  "upload_image (example_env keeps_size (always (Inl ConnectionError))) ''/d/a.tif'' (one_file 10)
   = Some (Inr False,
       \<lparr>disk = [(''/d'', Dir), (''/d/a.tif'', File 10)], net = (),
        trace = [Send ''/d/a.tif'', PrintErr CouldNotConnect, PrintExn ConnectionError]\<rparr>)"
  using upload_image_transport_failure
    [of "one_file 10" "''/d/a.tif''" 10 "example_env keeps_size (always (Inl ConnectionError))"
        ConnectionError "()"]
  by (simp add: example_simps)

text \<open>
  C3, as the claim has it: every response that is neither a success nor the size-limit
  error is recorded as a soft failure. \<open>upload_image\<close> records a failure in the handler
  of \<open>HTTPError\<close>, which \<open>raise_for_status()\<close> raises for 400 to 599 only: the answer 304
  makes \<open>post\<close> return \<open>False\<close>, and \<open>upload_image\<close> passes it on with nothing shown and
  nothing printed.
\<close>

theorem upload_image_304_is_silent:
  "upload_image (example_env keeps_size (always (Inr \<lparr>status_code = 304, resp_text = []\<rparr>)))
     ''/d/a.tif'' (one_file 10)
   = Some (Inr False,
       \<lparr>disk = [(''/d'', Dir), (''/d/a.tif'', File 10)], net = (), trace = [Send ''/d/a.tif'']\<rparr>)"
  by (simp add: upload_image.simps example_simps)

text \<open>
  C3, amended. For a response whose status is not 200: when the status is 500 and the
  body contains \<open>SizeLimitExceededException:\<close>, \<open>compress_image\<close> runs on the same file
  and \<open>upload_image\<close> is called again on it, in the world that \<open>compress_image\<close> left;
  in every other case \<open>upload_image\<close> returns \<open>False\<close> after that one request, with no
  call of \<open>compress_image\<close> and no second request, and it prints the failure to the error
  stream when the status is from 400 to 599, and nothing otherwise.
\<close>

theorem upload_image_by_status:
  assumes "map_of (disk w) p = Some (File c)"
    and "session_send E (os_path_basename p) c (net w) = (Inr r, n')"
    and "status_code r \<noteq> 200"
  shows "upload_image E p w =
     (if status_code r = 500 \<and> contains size_limit_marker (resp_text r) then
        (case compress_image E p (w\<lparr>net := n', trace := trace w @ [Send p]\<rparr>) of
           (Inl e, w2) \<Rightarrow> Some (Inl e, w2)
         | (Inr _, w2) \<Rightarrow> upload_image E p w2)
      else Some (Inr False,
             w\<lparr>net := n',
               trace := trace w @ [Send p]
                 @ (if 400 \<le> status_code r \<and> status_code r < 600
                    then [PrintErr (ServerResponseError (status_code r)),
                          PrintExn (HTTPError (status_code r) (resp_text r))]
                    else [])\<rparr>))"
  using assms
  by (subst upload_image.simps) (simp add: post_def ok_def emit_def error_def)

theorem upload_image_by_status_witness:
  "upload_image (example_env shrinks size_limited) ''/d/a.tif'' (one_file 2000000)
   = Some (Inr True,
       \<lparr>disk = [(''/d'', Dir), (''/d/a.tif'', File 819200)], net = (),
        trace = [Send ''/d/a.tif'', Compress ''/d/a.tif'', Resave ''/d/a.tif'',
                 Resave ''/d/a.tif'', Send ''/d/a.tif'']\<rparr>)"
  using upload_image_by_status [of "one_file 2000000" "''/d/a.tif''" 2000000
        "example_env shrinks size_limited"
        "\<lparr>status_code = 500, resp_text = ''Error: SizeLimitExceededException: too large''\<rparr>" "()"]
  by (simp add: example_simps size_limited_def size_limit_marker_def startswith_def
      compress_image_def compress_loop.simps resave_def os_stat_size_def write_file_def
      FILE_SIZE_LIMIT_def MAX_RESIZE_PASSES_def downsize_def upload_image.simps)

section \<open>Properties of a batch\<close>

lemma rename_path_trace:
  "\<exists>es. trace (snd (rename_path u p w)) = trace w @ es \<and> list_all per_file_event es"
  by (simp add: rename_path_def rename_def os_renames_def shutil_rmtree_def emit_def error_def
      Let_def split: sum.splits prod.splits)

lemma rename_paths_trace:
  "rename_paths u ps w = (rs, w') \<Longrightarrow>
   \<exists>es. trace w' = trace w @ es \<and> list_all per_file_event es"
proof (induction ps arbitrary: w rs w')
  case Nil
  then show ?case by simp
next
  case (Cons p ps)
  obtain r w1 where 1: "rename_path u p w = (r, w1)" by (cases "rename_path u p w")
  obtain rs' w2 where 2: "rename_paths u ps w1 = (rs', w2)" by (cases "rename_paths u ps w1")
  from Cons.prems 1 2 have w': "w' = w2" by simp
  from rename_path_trace [of u p w] 1 obtain es1 where
    e1: "trace w1 = trace w @ es1" "list_all per_file_event es1" by auto
  from Cons.IH [OF 2] obtain es2 where
    e2: "trace w2 = trace w1 @ es2" "list_all per_file_event es2" by auto
  from e1 e2 w' have "trace w' = trace w @ (es1 @ es2) \<and> list_all per_file_event (es1 @ es2)"
    by simp
  then show ?case by blast
qed

lemma convert_image_trace:
  "\<exists>es. trace (snd (convert_image E p w)) = trace w @ es \<and> list_all per_file_event es"
  by (simp add: convert_image_def emit_def error_def Let_def
      split: sum.splits option.splits node.splits)

lemma convert_images_trace:
  "convert_images E ps w = (rs, w') \<Longrightarrow>
   \<exists>es. trace w' = trace w @ es \<and> list_all per_file_event es"
proof (induction ps arbitrary: w rs w')
  case Nil
  then show ?case by simp
next
  case (Cons p ps)
  obtain r w1 where 1: "convert_image E p w = (r, w1)" by (cases "convert_image E p w")
  from convert_image_trace [of E p w] 1 obtain es1 where
    e1: "trace w1 = trace w @ es1" "list_all per_file_event es1" by auto
  show ?case
  proof (cases r)
    case (Inl e)
    with Cons.prems 1 have "w' = w1" by simp
    with e1 show ?thesis by blast
  next
    case (Inr c)
    obtain rs' w2 where 2: "convert_images E ps w1 = (rs', w2)" by (cases "convert_images E ps w1")
    from Cons.prems 1 2 Inr have w': "w' = w2" by (simp split: sum.splits)
    from Cons.IH [OF 2] obtain es2 where
      e2: "trace w2 = trace w1 @ es2" "list_all per_file_event es2" by auto
    from e1 e2 w' have "trace w' = trace w @ (es1 @ es2) \<and> list_all per_file_event (es1 @ es2)"
      by simp
    then show ?thesis by blast
  qed
qed

text \<open>
  C7. When no path survives the renaming step, or the conversions return and no path
  survives them, \<open>process_images\<close> returns 1 and leaves the instance as it was: nothing
  is put on the queue and the thread is not started. Beyond the effects of the renames
  and conversions themselves, it makes one report, the last effect, which is about the
  batch and names the path the instance was given.
\<close>

theorem process_images_no_survivors:
  assumes rn: "rename_paths u (get_all_files dir w) w = (rs, w1)"
    and zero: "filter truthy rs = []
       \<or> (\<exists>cs w2. convert_images E (map path_of (filter truthy rs)) w1 = (Inr cs, w2)
             \<and> filter truthy cs = [])"
  shows "\<exists>w' es m. process_images E u dir w = (Inr 1, u, w')
       \<and> trace w' = trace w @ es @ [if silent u then PrintErr m else ShowError m]
       \<and> list_all per_file_event es
       \<and> (m = NoImagesAfterRenaming (original_image_path u)
          \<or> m = NoImagesAfterConversion (original_image_path u))"
proof -
  from rename_paths_trace [OF rn] obtain es1 where
    e1: "trace w1 = trace w @ es1" "list_all per_file_event es1" by auto
  show ?thesis
  proof (cases "filter truthy rs = []")
    case True
    with rn have "process_images E u dir w =
        (Inr 1, u, error (NoImagesAfterRenaming (original_image_path u)) None (silent u) w1)"
      by (simp add: process_images_def)
    moreover have "trace (error (NoImagesAfterRenaming (original_image_path u)) None (silent u) w1)
        = trace w @ es1 @ [if silent u then PrintErr (NoImagesAfterRenaming (original_image_path u))
                           else ShowError (NoImagesAfterRenaming (original_image_path u))]"
      using e1 by (simp add: error_def emit_def)
    ultimately show ?thesis using e1(2) by blast
  next
    case False
    with zero obtain cs w2 where
      cv: "convert_images E (map path_of (filter truthy rs)) w1 = (Inr cs, w2)"
      and none: "filter truthy cs = []" by blast
    from convert_images_trace [OF cv] obtain es2 where
      e2: "trace w2 = trace w1 @ es2" "list_all per_file_event es2" by auto
    from rn False cv none have "process_images E u dir w =
        (Inr 1, u, error (NoImagesAfterConversion (original_image_path u)) None (silent u) w2)"
      by (simp add: process_images_def)
    moreover have "trace (error (NoImagesAfterConversion (original_image_path u)) None (silent u) w2)
        = trace w @ (es1 @ es2)
            @ [if silent u then PrintErr (NoImagesAfterConversion (original_image_path u))
               else ShowError (NoImagesAfterConversion (original_image_path u))]"
      using e1 e2 by (simp add: error_def emit_def)
    moreover have "list_all per_file_event (es1 @ es2)" using e1 e2 by simp
    ultimately show ?thesis by blast
  qed
qed

theorem process_images_no_survivors_witness:
  "rename_paths example_uploader
       (get_all_files ''/d'' \<lparr>disk = [(''/d'', Dir), (''/d/a.jpg'', File 10)], net = (), trace = []\<rparr>)
       \<lparr>disk = [(''/d'', Dir), (''/d/a.jpg'', File 10)], net = (), trace = []\<rparr>
     = ([Path ''/d/h123-20240131-235959.jpg''],
        \<lparr>disk = [(''/d/h123-20240131-235959.jpg'', File 10), (''/d'', Dir)], net = (),
         trace = [Renames ''/d/a.jpg'' ''/d/h123-20240131-235959.jpg'']\<rparr>)
   \<and> process_images no_tiff example_uploader ''/d''
       \<lparr>disk = [(''/d'', Dir), (''/d/a.jpg'', File 10)], net = (), trace = []\<rparr>
     = (Inr 1, example_uploader,
        \<lparr>disk = [(''/d/h123-20240131-235959.jpg'', File 10), (''/d'', Dir)], net = (),
         trace = [Renames ''/d/a.jpg'' ''/d/h123-20240131-235959.jpg'',
                  SaveTiff ''/d/h123-20240131-235959.jpg'' ''/d/h123-20240131-235959.tif'',
                  PrintErr OSErrorDuringConversion, PrintExn (OSError EIO),
                  PrintErr (NoImagesAfterConversion ''/d'')]\<rparr>)"
  using process_images_no_survivors
    [where u = example_uploader and dir = "''/d''" and E = no_tiff
       and w = "\<lparr>disk = [(''/d'', Dir), (''/d/a.jpg'', File 10)], net = (), trace = []\<rparr>"
       and rs = "[Path ''/d/h123-20240131-235959.jpg'']"
       and ?w1.0 = "\<lparr>disk = [(''/d/h123-20240131-235959.jpg'', File 10), (''/d'', Dir)], net = (),
         trace = [Renames ''/d/a.jpg'' ''/d/h123-20240131-235959.jpg'']\<rparr>"]
  by (simp add: process_images_def get_all_files_def is_file_def convert_image_def lower_def
      lower_char_def no_tiff_def example_env_def keeps_size_def path_simps disk_simps Let_def)

section \<open>Properties of the background worker\<close>

lemma outcomes_snoc:
  "length rs = length ds \<Longrightarrow> outcomes (rs @ [r]) (ds @ [t]) = outcomes rs ds @ [Result r (snd t)]"
  by (simp add: outcomes_def)

lemma BGRunner_body_signal:
  "BGRunner_body run task u w = Some (Inr sg, u1, w1) \<Longrightarrow> \<exists>r. sg = Result r (snd task)"
  by (auto simp add: BGRunner_body_def split: prod.splits option.splits sum.splits)

lemma inv_start: "drained_inv items (start items u w)"
  by (simp add: drained_inv_def start_def outcomes_def)

lemma inv_step:
  assumes "step run s s'" and "drained_inv items s"
  shows "drained_inv items s'"
  using assms
proof (induction rule: step.induct)
  case (put s x xs)
  then show ?case by (auto simp add: drained_inv_def)
next
  case (turn s task rest sg u1 w1)
  from turn.prems turn.hyps(1,2) obtain ds rs where
    i: "items = ds @ task # rest @ pending s" and l: "length rs = length ds"
    and e: "emitted s = outcomes rs ds"
    by (auto simp add: drained_inv_def)
  from BGRunner_body_signal [OF turn.hyps(3)] obtain r where sg: "sg = Result r (snd task)" ..
  have "items = (ds @ [task]) @ [] @ rest @ pending s" using i by simp
  moreover have "length (rs @ [r]) = length (ds @ [task])" using l by simp
  moreover have "emitted s @ [sg] = outcomes (rs @ [r]) (ds @ [task])"
    using e sg outcomes_snoc [OF l] by simp
  ultimately show ?case
    using turn.hyps(1) unfolding drained_inv_def
    by (intro exI [of _ "ds @ [task]"] exI [of _ "rs @ [r]"] exI [of _ "[]"]) simp
next
  case (raise s task rest e u1 w1)
  from raise.prems raise.hyps(1,2) obtain ds rs where
    i: "items = ds @ task # rest @ pending s" and l: "length rs = length ds"
    and e: "emitted s = outcomes rs ds"
    by (auto simp add: drained_inv_def)
  show ?case unfolding drained_inv_def
    using i l e by (intro exI [of _ ds] exI [of _ rs] exI [of _ "[task]"]) simp
next
  case (leave s)
  then show ?case by (auto simp add: drained_inv_def)
qed

lemma inv_reachable:
  assumes "(step run)\<^sup>*\<^sup>* (start items u w) s"
  shows "drained_inv items s"
  using assms by (induction rule: rtranclp_induct) (auto intro: inv_start inv_step)

text \<open>
  C6. In every state that the caller and the worker can reach together, whatever the
  order of their steps, the \<open>result\<close> signals emitted so far are the outcomes of a front
  part of the items, one each, in the order in which the items are put; \<open>done\<close> has been
  emitted exactly when the worker has left its loop, and then it is the last signal.
  When the worker has left its loop with everything put and nothing left on the queue,
  every item has its outcome before \<open>done\<close>.
\<close>

theorem outcomes_in_order_done_last:
  assumes "(step run)\<^sup>*\<^sup>* (start items u w) s"
  shows "\<exists>rs ds rest. items = ds @ rest \<and> length rs = length ds
           \<and> emitted s = outcomes rs ds @ (if worker_state s = Finished then [Done 0] else [])
           \<and> (worker_state s = Finished \<and> queue s = [] \<and> pending s = [] \<longrightarrow> rest = [])"
proof -
  from inv_reachable [OF assms] obtain ds rs cs where
    i: "items = ds @ cs @ queue s @ pending s" and l: "length rs = length ds"
    and e: "emitted s = outcomes rs ds @ (if worker_state s = Finished then [Done 0] else [])"
    and c: "cs = [] \<or> (\<exists>e. worker_state s = Raised e)"
    unfolding drained_inv_def by blast
  from c have "worker_state s = Finished \<and> queue s = [] \<and> pending s = []
      \<longrightarrow> cs @ queue s @ pending s = []"
    by auto
  with i l e show ?thesis by blast
qed

lemma BGRunner_loop_steps:
  "BGRunner_loop run tasks u w em = Some (Inr x, em', rest, u', w') \<Longrightarrow>
   rest = [] \<and>
   (step run)\<^sup>*\<^sup>*
     \<lparr>pending = pd, queue = tasks, worker_state = Running, emitted = em,
      worker_uploader = u, shared = w\<rparr>
     \<lparr>pending = pd, queue = [], worker_state = Running, emitted = em',
      worker_uploader = u', shared = w'\<rparr>"
proof (induction tasks arbitrary: u w em)
  case Nil
  then show ?case by simp
next
  case (Cons task tasks)
  from Cons.prems obtain sg u1 w1 where
    b: "BGRunner_body run task u w = Some (Inr sg, u1, w1)"
    and r: "BGRunner_loop run tasks u1 w1 (em @ [sg]) = Some (Inr x, em', rest, u', w')"
    by (auto split: option.splits sum.splits prod.splits)
  have "step run
     \<lparr>pending = pd, queue = task # tasks, worker_state = Running, emitted = em,
      worker_uploader = u, shared = w\<rparr>
     \<lparr>pending = pd, queue = tasks, worker_state = Running, emitted = em @ [sg],
      worker_uploader = u1, shared = w1\<rparr>"
    using step.turn [of "\<lparr>pending = pd, queue = task # tasks, worker_state = Running,
      emitted = em, worker_uploader = u, shared = w\<rparr>" task tasks run sg u1 w1] b
    by simp
  with Cons.IH [OF r] show ?case
    by (meson converse_rtranclp_into_rtranclp)
qed

text \<open>
  The function \<open>BGRunner_run\<close> is the run in which everything has been put before the
  worker looks at the queue: when it returns, it has emitted one outcome for each task,
  in the order of the queue, and then \<open>done\<close>.
\<close>

lemma puts_reach:
  "(step run)\<^sup>*\<^sup>*
     \<lparr>pending = ps, queue = q, worker_state = st, emitted = em, worker_uploader = u, shared = w\<rparr>
     \<lparr>pending = [], queue = q @ ps, worker_state = st, emitted = em, worker_uploader = u,
      shared = w\<rparr>"
proof (induction ps arbitrary: q)
  case Nil
  then show ?case by simp
next
  case (Cons x xs)
  have "step run
     \<lparr>pending = x # xs, queue = q, worker_state = st, emitted = em, worker_uploader = u,
      shared = w\<rparr>
     \<lparr>pending = xs, queue = q @ [x], worker_state = st, emitted = em, worker_uploader = u,
      shared = w\<rparr>"
    using step.put [of "\<lparr>pending = x # xs, queue = q, worker_state = st, emitted = em,
      worker_uploader = u, shared = w\<rparr>" x xs run]
    by simp
  with Cons.IH [of "q @ [x]"] show ?case
    by (simp add: converse_rtranclp_into_rtranclp)
qed

lemma BGRunner_run_signals:
  assumes "BGRunner_run run tasks u w = Some (Inr x, sigs, rest, u', w')"
  shows "rest = [] \<and> (\<exists>rs. length rs = length tasks \<and> sigs = outcomes rs tasks @ [Done 0])"
proof -
  from assms obtain em y where
    loop: "BGRunner_loop run tasks u w [] = Some (Inr y, em, rest, u', w')"
    and sigs: "sigs = em @ [Done 0]"
    by (auto simp add: BGRunner_run_def split: option.splits sum.splits prod.splits)
  let ?fin = "\<lparr>pending = [], queue = [], worker_state = Finished, emitted = em @ [Done 0],
      worker_uploader = u', shared = w'\<rparr>"
  from BGRunner_loop_steps [OF loop, of "[]"] have rest: "rest = []"
    and run: "(step run)\<^sup>*\<^sup>*
       \<lparr>pending = [], queue = tasks, worker_state = Running, emitted = [],
        worker_uploader = u, shared = w\<rparr>
       \<lparr>pending = [], queue = [], worker_state = Running, emitted = em,
        worker_uploader = u', shared = w'\<rparr>"
    by simp_all
  have puts: "(step run)\<^sup>*\<^sup>* (start tasks u w)
       \<lparr>pending = [], queue = tasks, worker_state = Running, emitted = [],
        worker_uploader = u, shared = w\<rparr>"
    using puts_reach [of run tasks "[]" Running "[]" u w] by (simp add: start_def)
  have last: "step run
       \<lparr>pending = [], queue = [], worker_state = Running, emitted = em,
        worker_uploader = u', shared = w'\<rparr> ?fin"
    using step.leave [of "\<lparr>pending = [], queue = [], worker_state = Running, emitted = em,
        worker_uploader = u', shared = w'\<rparr>" run]
    by simp
  from puts run last have "(step run)\<^sup>*\<^sup>* (start tasks u w) ?fin"
    by (meson rtranclp.rtrancl_into_rtrancl rtranclp_trans)
  from inv_reachable [OF this] obtain ds rs cs where
    "tasks = ds @ cs" "length rs = length ds" "em @ [Done 0] = outcomes rs ds @ [Done 0]" "cs = []"
    unfolding drained_inv_def by auto
  with rest sigs show ?thesis by auto
qed

lemma drained_reachable: "(step always_ok)\<^sup>*\<^sup>* (start two_items u ()) (drained u)"
proof -
  let ?s0 = "start two_items u ()"
  let ?s1 = "?s0\<lparr>pending := [(''123'', ''/d/b.tif'')], queue := [(''123'', ''/d/a.tif'')]\<rparr>"
  let ?s2 = "?s1\<lparr>queue := [], emitted := [Result 0 ''/d/a.tif''],
     worker_uploader := u\<lparr>hawb_number := ''123'', original_image_path := ''/d/a.tif''\<rparr>,
     shared := ()\<rparr>"
  let ?s3 = "?s2\<lparr>pending := [], queue := [(''123'', ''/d/b.tif'')]\<rparr>"
  let ?s4 = "?s3\<lparr>queue := [], emitted := [Result 0 ''/d/a.tif'', Result 0 ''/d/b.tif''],
     worker_uploader := u\<lparr>hawb_number := ''123'', original_image_path := ''/d/b.tif''\<rparr>,
     shared := ()\<rparr>"
  have 1: "step always_ok ?s0 ?s1"
    using step.put [of ?s0 "(''123'', ''/d/a.tif'')" "[(''123'', ''/d/b.tif'')]" always_ok]
    by (simp add: start_def two_items_def)
  have 2: "step always_ok ?s1 ?s2"
    using step.turn [of ?s1 "(''123'', ''/d/a.tif'')" "[]" always_ok "Result 0 ''/d/a.tif''"
        "u\<lparr>hawb_number := ''123'', original_image_path := ''/d/a.tif''\<rparr>" "()"]
    by (simp add: start_def two_items_def BGRunner_body_def always_ok_def)
  have 3: "step always_ok ?s2 ?s3"
    using step.put [of ?s2 "(''123'', ''/d/b.tif'')" "[]" always_ok]
    by (simp add: start_def two_items_def)
  have 4: "step always_ok ?s3 ?s4"
    using step.turn [of ?s3 "(''123'', ''/d/b.tif'')" "[]" always_ok "Result 0 ''/d/b.tif''"
        "u\<lparr>hawb_number := ''123'', original_image_path := ''/d/b.tif''\<rparr>" "()"]
    by (simp add: start_def two_items_def BGRunner_body_def always_ok_def)
  have 5: "step always_ok ?s4 (drained u)"
    using step.leave [of ?s4 always_ok]
    by (simp add: start_def two_items_def drained_def)
  from 1 2 3 4 5 show ?thesis
    by (meson rtranclp.rtrancl_into_rtrancl rtranclp.rtrancl_refl)
qed

theorem outcomes_in_order_done_last_witness:
  "(step always_ok)\<^sup>*\<^sup>* (start two_items (init \<lparr>Ymd = ''20240131'', HMS = ''235959''\<rparr> ''123'' ''/d'' True False) ())
      (drained (init \<lparr>Ymd = ''20240131'', HMS = ''235959''\<rparr> ''123'' ''/d'' True False))
   \<and> (\<exists>rs ds rest. two_items = ds @ rest \<and> length rs = length ds
           \<and> emitted (drained (init \<lparr>Ymd = ''20240131'', HMS = ''235959''\<rparr> ''123'' ''/d'' True False))
               = outcomes rs ds @ [Done 0]
           \<and> rest = [])"
  using outcomes_in_order_done_last [OF drained_reachable, of "init \<lparr>Ymd = ''20240131'', HMS = ''235959''\<rparr> ''123'' ''/d'' True False"]
    drained_reachable [of "init \<lparr>Ymd = ''20240131'', HMS = ''235959''\<rparr> ''123'' ''/d'' True False"]
  by (simp add: drained_def)

section \<open>Properties of the ResultAggregator\<close>

text \<open>
  C10. The count that \<open>examine_bg_results\<close> returns is the length of the list of failed
  outcomes, so it is never negative, and the report "Could not upload file" of the branch
  \<open>num < 0\<close> is never made, whatever the list of results is.
\<close>

theorem examine_bg_results_count:
  "0 \<le> fst (examine_bg_results u w)
   \<and> fst (examine_bg_results u w) = int (length (filter (\<lambda>x. fst x \<noteq> 0) (bg_results u)))
   \<and> (\<forall>p. ShowError (CouldNotUploadFile p)
             \<notin> set (drop (length (trace w)) (trace (snd (examine_bg_results u w))))
          \<and> PrintErr (CouldNotUploadFile p)
             \<notin> set (drop (length (trace w)) (trace (snd (examine_bg_results u w)))))"
  by (simp add: examine_bg_results_def Let_def error_def success_def emit_def)

end
